theory Spec2Isabelle
  imports Main "HOL-Library.Word" "HOL-Library.AList"
begin

section \<open>Data model\<close>

text \<open>
  Exceptions of the Python code are values. \<open>KeyError k\<close> is what a subscript
  \<^verbatim>\<open>d[k]\<close> on a dict raises for a missing key; \<open>EncodeError\<close>, \<open>DecodeError\<close>
  and \<open>TaskError\<close> stand for whatever a serialization backend or a task callable
  raises; \<open>ClosedResourceError\<close> is what anyio raises on a send to a closed stream;
  \<open>ExceptionGroup\<close> is the group that an \<^verbatim>\<open>asyncio.TaskGroup\<close> raises, with the
  exceptions of its tasks.
\<close>

datatype error =
    KeyError string
  | EncodeError
  | DecodeError
  | TaskError
  | ClosedResourceError
  | ExceptionGroup "error list"

type_synonym bytes = "8 word list"

type_synonym SerializationBackendId = string

text \<open>
  \<^verbatim>\<open>class SerializationBackend(Protocol)\<close> of \<^verbatim>\<open>serialization/_serialization.py\<close>:
  an id and three methods. \<open>'v\<close> is the type of Python values, \<open>'ty\<close> the type of
  the type hints passed to \<^verbatim>\<open>deserialize\<close>. The two codec methods may raise.
\<close>

record ('v, 'ty) SerializationBackend =
  backend_id :: SerializationBackendId
  backend_serialize :: "'v \<Rightarrow> error + bytes"
  backend_deserialize :: "bytes \<Rightarrow> 'ty \<Rightarrow> error + 'v"
  serializable :: "'v \<Rightarrow> bool"

text \<open>
  A Python dict is an association list in insertion order; \<^verbatim>\<open>d[k]\<close> is
  \<open>map_of d k\<close>, \<^verbatim>\<open>d.values()\<close> is \<open>map snd d\<close>.
\<close>

type_synonym ('v, 'ty) registry = "(SerializationBackendId \<times> ('v, 'ty) SerializationBackend) list"

text \<open>
  \<^verbatim>\<open>class TaskRecord(msgspec.Struct)\<close>. The field \<^verbatim>\<open>id\<close> is \<open>task_id\<close> here (\<open>id\<close> is
  the identity function of HOL); \<^verbatim>\<open>enqueue_time\<close> is a timestamp in microseconds.
\<close>

record TaskRecord =
  task_id :: string
  task_name :: string
  requeue_count :: int
  enqueue_time :: int
  args :: "(SerializationBackendId \<times> bytes) list"
  kwargs :: "(string \<times> (SerializationBackendId \<times> bytes)) list"

text \<open>
  \<^verbatim>\<open>TaskDefinition\<close> and \<^verbatim>\<open>TaskInstance\<close> are declared in \<^verbatim>\<open>asyncqueue/tasks.py\<close>;
  the fields below are the ones the functions of this development read:
  \<^verbatim>\<open>params.name\<close>, \<^verbatim>\<open>func\<close>, \<^verbatim>\<open>arg_types\<close>, \<^verbatim>\<open>kwarg_types\<close>, and for the worker of
  \<^verbatim>\<open>aiotaskqueue\<close> the names of the parameters of \<^verbatim>\<open>func\<close> annotated with
  \<^verbatim>\<open>Publisher\<close> (what \<^verbatim>\<open>_dependencies_to_inject\<close> computes by inspection).
\<close>

record ('v, 'ty) TaskDefinition =
  params_name :: string
  func :: "'v list \<Rightarrow> (string \<times> 'v) list \<Rightarrow> error + 'v"
  arg_types :: "'ty list"
  kwarg_types :: "(string \<times> 'ty) list"
  publisher_params :: "string list"

record ('v, 'ty) TaskInstance =
  inst_task :: "('v, 'ty) TaskDefinition"
  inst_args :: "'v list"
  inst_kwargs :: "(string \<times> 'v) list"

section \<open>Serialization\<close>

text \<open>
  A comprehension whose element expression may raise: the elements are computed left
  to right and the first exception ends the whole comprehension.
\<close>

fun collect :: "('a \<Rightarrow> error + 'b) \<Rightarrow> 'a list \<Rightarrow> error + 'b list" where
  "collect f [] = Inr []"
| "collect f (x # xs) =
     (case f x of
        Inl e \<Rightarrow> Inl e
      | Inr y \<Rightarrow> (case collect f xs of Inl e \<Rightarrow> Inl e | Inr ys \<Rightarrow> Inr (y # ys)))"

text \<open>
  \<^verbatim>\<open>return backend.id, backend.serialize(value)\<close>: the pair of the backend's id and
  its encoding, or the exception of \<^verbatim>\<open>backend.serialize\<close>.
\<close>

definition serialize_with :: "('v, 'ty) SerializationBackend \<Rightarrow> 'v \<Rightarrow> error + (SerializationBackendId \<times> bytes)" where
  "serialize_with backend v =
     (case backend_serialize backend v of
        Inl e \<Rightarrow> Inl e
      | Inr bs \<Rightarrow> Inr (backend_id backend, bs))"

text \<open>
  \<^verbatim>\<open>serialize(value, default_backend, backends)\<close>: the loop over
  \<^verbatim>\<open>backends.values()\<close> returns at the first backend with \<^verbatim>\<open>serializable(value)\<close>;
  after the loop the default backend is used.
\<close>

fun serialize :: "'v \<Rightarrow> ('v, 'ty) SerializationBackend \<Rightarrow> ('v, 'ty) registry \<Rightarrow> error + (SerializationBackendId \<times> bytes)" where
  "serialize v default_backend [] = serialize_with default_backend v"
| "serialize v default_backend ((k, backend) # backends) =
     (if serializable backend v then serialize_with backend v
      else serialize v default_backend backends)"

text \<open>
  \<^verbatim>\<open>serialize_task\<close>. The fresh \<^verbatim>\<open>uuid.uuid4()\<close> and \<^verbatim>\<open>utc_now()\<close> are inputs;
  \<^verbatim>\<open>requeue_count\<close> is not passed to the constructor and takes its default 0.
  The positional arguments are encoded before the keyword arguments.
\<close>

definition serialize_task ::
  "string \<Rightarrow> int \<Rightarrow> ('v, 'ty) TaskInstance \<Rightarrow> ('v, 'ty) SerializationBackend \<Rightarrow> ('v, 'ty) registry \<Rightarrow> error + TaskRecord" where
  "serialize_task uuid now inst default_backend serialization_backends =
     (case collect (\<lambda>v. serialize v default_backend serialization_backends) (inst_args inst) of
        Inl e \<Rightarrow> Inl e
      | Inr as \<Rightarrow>
          (case collect (\<lambda>(key, v).
                   case serialize v default_backend serialization_backends of
                     Inl e \<Rightarrow> Inl e
                   | Inr p \<Rightarrow> Inr (key, p)) (inst_kwargs inst) of
             Inl e \<Rightarrow> Inl e
           | Inr ks \<Rightarrow>
               Inr \<lparr>task_id = uuid, task_name = params_name (inst_task inst), requeue_count = 0,
                    enqueue_time = now, args = as, kwargs = ks\<rparr>))"

text \<open>
  One positional item of \<^verbatim>\<open>deserialize_task\<close>:
  \<^verbatim>\<open>serialization_backends[backend_id].deserialize(value, type=arg_type)\<close>.
\<close>

definition deserialize_arg :: "('v, 'ty) registry \<Rightarrow> (SerializationBackendId \<times> bytes) \<times> 'ty \<Rightarrow> error + 'v" where
  "deserialize_arg serialization_backends = (\<lambda>((bid, val), arg_type).
     case map_of serialization_backends bid of
       None \<Rightarrow> Inl (KeyError bid)
     | Some backend \<Rightarrow> backend_deserialize backend val arg_type)"

text \<open>
  One keyword item: the backend is looked up first, then
  \<^verbatim>\<open>task_definition.kwarg_types[key]\<close>, then the backend decodes.
\<close>

definition deserialize_kwarg ::
  "('v, 'ty) registry \<Rightarrow> (string \<times> 'ty) list \<Rightarrow> string \<times> (SerializationBackendId \<times> bytes) \<Rightarrow> error + (string \<times> 'v)" where
  "deserialize_kwarg serialization_backends kwtypes = (\<lambda>(key, (bid, val)).
     case map_of serialization_backends bid of
       None \<Rightarrow> Inl (KeyError bid)
     | Some backend \<Rightarrow>
         (case map_of kwtypes key of
            None \<Rightarrow> Inl (KeyError key)
          | Some ty \<Rightarrow>
              (case backend_deserialize backend val ty of
                 Inl e \<Rightarrow> Inl e
               | Inr v \<Rightarrow> Inr (key, v))))"

text \<open>
  \<^verbatim>\<open>deserialize_task\<close>: \<^verbatim>\<open>zip(task.args, task_definition.arg_types, strict=False)\<close>
  stops at the shorter of the two sequences, as \<open>zip\<close> does.
\<close>

definition deserialize_task ::
  "('v, 'ty) TaskDefinition \<Rightarrow> TaskRecord \<Rightarrow> ('v, 'ty) registry \<Rightarrow> error + ('v list \<times> (string \<times> 'v) list)" where
  "deserialize_task task_definition record serialization_backends =
     (case collect (deserialize_arg serialization_backends)
             (zip (args record) (arg_types task_definition)) of
        Inl e \<Rightarrow> Inl e
      | Inr as \<Rightarrow>
          (case collect (deserialize_kwarg serialization_backends (kwarg_types task_definition))
                  (kwargs record) of
             Inl e \<Rightarrow> Inl e
           | Inr ks \<Rightarrow> Inr (as, ks)))"


section \<open>Brokers\<close>

text \<open>\<^verbatim>\<open>BrokerTask\<close>: a record together with the broker's own metadata.\<close>

record 'm BrokerTask =
  task :: TaskRecord
  meta :: 'm

text \<open>
  The abstract \<^verbatim>\<open>Broker\<close> is declared in \<^verbatim>\<open>broker/abc.py\<close>; the worker calls the
  three operations below on it. A broker is given by these operations on a broker state
  \<open>'b\<close>. \<^verbatim>\<open>ack_context\<close> is a scope: it takes the body that runs inside
  \<^verbatim>\<open>async with\<close>, which returns a value or raises.
\<close>

record ('m, 'b, 'r) Broker =
  broker_ack :: "'m BrokerTask \<Rightarrow> 'b \<Rightarrow> 'b"
  broker_ack_context :: "'m BrokerTask \<Rightarrow> ('b \<Rightarrow> (error + 'r) \<times> 'b) \<Rightarrow> 'b \<Rightarrow> (error + 'r) \<times> 'b"
  broker_tasks_healthcheck :: "'m BrokerTask list \<Rightarrow> 'b \<Rightarrow> 'b"

subsection \<open>The Redis stream broker\<close>

text \<open>
  The part of a Redis stream with one consumer group that \<^verbatim>\<open>broker/redis.py\<close> uses.
  Entry ids are assigned by the server in increasing order. The \<^verbatim>\<open>value\<close> field of an
  entry holds \<^verbatim>\<open>msgspec.json.encode(task)\<close>, and readers apply
  \<^verbatim>\<open>msgspec.json.decode(..., type=TaskRecord)\<close>; the entry is modelled by the record
  itself. \<open>pending\<close> is the group's list of delivered and not yet acknowledged entries,
  each with its idle time in milliseconds; \<open>commands\<close> logs the write commands in the
  order in which the server received them.
\<close>

type_synonym entry_id = nat

datatype redis_command = XADD TaskRecord | XACK entry_id | XCLAIM "entry_id list"

record Redis =
  stream :: "(entry_id \<times> TaskRecord) list"
  pending :: "(entry_id \<times> nat) list"
  next_entry :: entry_id
  commands :: "redis_command list"

record RedisMeta =
  meta_id :: entry_id

definition xadd :: "TaskRecord \<Rightarrow> Redis \<Rightarrow> Redis" where
  "xadd t r =
     r\<lparr>stream := stream r @ [(next_entry r, t)],
       next_entry := Suc (next_entry r),
       commands := commands r @ [XADD t]\<rparr>"

definition xack :: "entry_id \<Rightarrow> Redis \<Rightarrow> Redis" where
  "xack i r =
     r\<lparr>pending := filter (\<lambda>(j, idle). j \<noteq> i) (pending r),
       commands := commands r @ [XACK i]\<rparr>"

text \<open>\<^verbatim>\<open>XCLAIM\<close> with \<^verbatim>\<open>min_idle_time=0\<close>: the idle time of the named pending entries restarts.\<close>

definition xclaim :: "entry_id list \<Rightarrow> Redis \<Rightarrow> Redis" where
  "xclaim ids r =
     r\<lparr>pending := map (\<lambda>(j, idle). if j \<in> set ids then (j, 0) else (j, idle)) (pending r),
       commands := commands r @ [XCLAIM ids]\<rparr>"

text \<open>\<^verbatim>\<open>RedisBroker.enqueue\<close>: one \<^verbatim>\<open>XADD\<close> (the semaphore only bounds concurrency).\<close>

definition RedisBroker_enqueue :: "TaskRecord \<Rightarrow> Redis \<Rightarrow> Redis" where
  "RedisBroker_enqueue t r = xadd t r"

text \<open>
  \<^verbatim>\<open>RedisBroker.ack_context\<close>, a generator under \<^verbatim>\<open>asynccontextmanager\<close>: an
  exception of the body is raised at the \<^verbatim>\<open>yield\<close>, which is not inside a
  \<^verbatim>\<open>try\<close>, so the \<^verbatim>\<open>xack\<close> after it does not run and the exception goes on to the
  caller. When the body returns, the generator resumes and sends \<^verbatim>\<open>XACK\<close>.
\<close>

definition RedisBroker_ack_context ::
  "RedisMeta BrokerTask \<Rightarrow> (Redis \<Rightarrow> (error + 'r) \<times> Redis) \<Rightarrow> Redis \<Rightarrow> (error + 'r) \<times> Redis" where
  "RedisBroker_ack_context bt body r =
     (case body r of
        (Inl e, r') \<Rightarrow> (Inl e, r')
      | (Inr x, r') \<Rightarrow> (Inr x, xack (meta_id (meta bt)) r'))"

text \<open>\<^verbatim>\<open>RedisBroker.tasks_healthcheck\<close>.\<close>

definition RedisBroker_tasks_healthcheck :: "RedisMeta BrokerTask list \<Rightarrow> Redis \<Rightarrow> Redis" where
  "RedisBroker_tasks_healthcheck tasks r = xclaim (map (\<lambda>bt. meta_id (meta bt)) tasks) r"

text \<open>
  The \<^verbatim>\<open>for record_id, record in messages\<close> loop of
  \<^verbatim>\<open>_maintenance_claim_pending_records\<close>, on the messages of one \<^verbatim>\<open>XAUTOCLAIM\<close> reply.
\<close>

fun requeue_claimed :: "(entry_id \<times> TaskRecord) list \<Rightarrow> Redis \<Rightarrow> Redis" where
  "requeue_claimed [] r = r"
| "requeue_claimed ((record_id, t) # messages) r =
     requeue_claimed messages
       (xack record_id (RedisBroker_enqueue (t\<lparr>requeue_count := requeue_count t + 1\<rparr>) r))"

text \<open>
  \<^verbatim>\<open>_maintenance_claim_pending_records\<close>. Each round of the \<^verbatim>\<open>while True\<close> loop is
  given by the messages of its \<^verbatim>\<open>XAUTOCLAIM\<close> reply and by whether \<^verbatim>\<open>stop\<close> is set
  when the wait after it ends. The result says whether the loop has returned; with no
  round left it is still waiting.
\<close>

fun RedisBroker_maintenance_claim_pending_records ::
  "((entry_id \<times> TaskRecord) list \<times> bool) list \<Rightarrow> Redis \<Rightarrow> bool \<times> Redis" where
  "RedisBroker_maintenance_claim_pending_records [] r = (False, r)"
| "RedisBroker_maintenance_claim_pending_records ((messages, stop) # rounds) r =
     (let r' = requeue_claimed messages r
      in if stop then (True, r') else RedisBroker_maintenance_claim_pending_records rounds r')"

text \<open>
  The Redis broker as a \<open>Broker\<close>. \<^verbatim>\<open>broker/redis.py\<close> has no \<^verbatim>\<open>ack\<close> method of its
  own; the \<^verbatim>\<open>ack\<close> that the worker of \<^verbatim>\<open>aiotaskqueue\<close> calls is taken to be the
  \<^verbatim>\<open>XACK\<close> of the entry.
\<close>

definition RedisBroker :: "(RedisMeta, Redis, 'r) Broker" where
  "RedisBroker =
     \<lparr>broker_ack = (\<lambda>bt. xack (meta_id (meta bt))),
      broker_ack_context = RedisBroker_ack_context,
      broker_tasks_healthcheck = RedisBroker_tasks_healthcheck\<rparr>"

subsection \<open>The in-memory broker\<close>

text \<open>
  \<^verbatim>\<open>InMemoryBroker\<close> of \<^verbatim>\<open>broker/inmemory.py\<close>, on the tasks in its memory stream: its
  \<^verbatim>\<open>ack_context\<close> is a \<^verbatim>\<open>contextlib.nullcontext()\<close>, its \<^verbatim>\<open>tasks_healthcheck\<close> is
  \<^verbatim>\<open>pass\<close>, and it has nothing to acknowledge.
\<close>

definition InMemoryBroker :: "(unit, unit BrokerTask list, 'r) Broker" where
  "InMemoryBroker =
     \<lparr>broker_ack = (\<lambda>bt q. q),
      broker_ack_context = (\<lambda>bt body q. body q),
      broker_tasks_healthcheck = (\<lambda>tasks q. q)\<rparr>"

section \<open>The worker\<close>

text \<open>
  \<^verbatim>\<open>Configuration\<close> is declared in \<^verbatim>\<open>config.py\<close>; these are the fields the worker and
  the broker read (\<^verbatim>\<open>task.max_delivery_attempts\<close>, \<^verbatim>\<open>task.healthcheck_interval\<close>,
  \<^verbatim>\<open>task.timeout_interval\<close>, \<^verbatim>\<open>serialization_backends\<close>). The intervals are
  \<^verbatim>\<open>timedelta\<close> values, in microseconds.
\<close>

record ('v, 'ty) Configuration =
  max_delivery_attempts :: int
  healthcheck_interval :: int
  timeout_interval :: int
  serialization_backends :: "('v, 'ty) registry"

text \<open>
  The attributes of an \<^verbatim>\<open>AsyncWorker\<close>, together with the state of the broker and of
  the result backend it holds references to. A result backend is the list of the
  \<^verbatim>\<open>set(task_id, value)\<close> calls it has received; \<open>None\<close> is Python's \<^verbatim>\<open>None\<close>.
  \<open>publisher\<close> is the \<^verbatim>\<open>Publisher\<close> object that the worker of \<^verbatim>\<open>aiotaskqueue\<close> hands to
  tasks, as a value.
\<close>

record ('v, 'ty, 'm, 'b) AsyncWorker =
  broker :: "('m, 'b, 'v) Broker"
  broker_state :: 'b
  publisher :: 'v
  result_backend :: "(string \<times> 'v) list option"
  tasks :: "(string \<times> ('v, 'ty) TaskDefinition) list"
  configuration :: "('v, 'ty) Configuration"
  concurrency :: int
  stop_event :: bool
  active_tasks :: "(string \<times> 'm BrokerTask) list"

text \<open>
  \<^verbatim>\<open>AsyncWorker.__init__\<close> stores its arguments, creates an unset event and an empty
  dict, and returns. It has no statement that can raise.
\<close>

definition AsyncWorker_init ::
  "('m, 'b, 'v) Broker \<Rightarrow> 'b \<Rightarrow> 'v \<Rightarrow> (string \<times> 'v) list option \<Rightarrow>
   (string \<times> ('v, 'ty) TaskDefinition) list \<Rightarrow> ('v, 'ty) Configuration \<Rightarrow> int \<Rightarrow>
   error + ('v, 'ty, 'm, 'b) AsyncWorker" where
  "AsyncWorker_init br b pub rb ts cfg n =
     Inr \<lparr>broker = br, broker_state = b, publisher = pub, result_backend = rb, tasks = ts,
          configuration = cfg, concurrency = n, stop_event = False, active_tasks = []\<rparr>"

text \<open>\<^verbatim>\<open>kwargs.setdefault(key, obj)\<close>.\<close>

definition setdefault :: "(string \<times> 'v) list \<Rightarrow> string \<Rightarrow> 'v \<Rightarrow> (string \<times> 'v) list" where
  "setdefault kw key obj = (case map_of kw key of None \<Rightarrow> kw @ [(key, obj)] | Some x \<Rightarrow> kw)"

text \<open>
  \<^verbatim>\<open>AsyncWorker._call_task_fn\<close> (\<^verbatim>\<open>aiotaskqueue/worker.py\<close>). The body of the
  \<^verbatim>\<open>async with\<close> in \<^verbatim>\<open>asyncqueue/worker.py\<close> is the same without the loop over
  \<^verbatim>\<open>_dependencies_to_inject\<close>, that is with \<open>publisher_params\<close> empty. Every injected
  parameter has the annotation \<^verbatim>\<open>Publisher\<close>, so the \<^verbatim>\<open>raise ValueError\<close> branch is
  never taken.
\<close>

definition AsyncWorker_call_task_fn :: "('v, 'ty, 'm, 'b) AsyncWorker \<Rightarrow> TaskRecord \<Rightarrow> error + 'v" where
  "AsyncWorker_call_task_fn w t =
     (case map_of (tasks w) (task_name t) of
        None \<Rightarrow> Inl (KeyError (task_name t))
      | Some task_definition \<Rightarrow>
          (case deserialize_task task_definition t (serialization_backends (configuration w)) of
             Inl e \<Rightarrow> Inl e
           | Inr (as, ks) \<Rightarrow>
               func task_definition as
                 (foldl (\<lambda>kw key. setdefault kw key (publisher w)) ks
                    (publisher_params task_definition))))"

text \<open>
  The body of the \<^verbatim>\<open>async for broker_task in recv\<close> loop of \<^verbatim>\<open>AsyncWorker._worker\<close>.
  Nothing in it catches an exception: when the \<^verbatim>\<open>async with\<close> raises, the statements
  after it do not run.
\<close>

definition worker_step ::
  "('v, 'ty, 'm, 'b) AsyncWorker \<Rightarrow> 'm BrokerTask \<Rightarrow> (error + unit) \<times> ('v, 'ty, 'm, 'b) AsyncWorker" where
  "worker_step w bt =
     (let w1 = w\<lparr>active_tasks := AList.update (task_id (task bt)) bt (active_tasks w)\<rparr>
      in case broker_ack_context (broker w1) bt
                (\<lambda>b. (AsyncWorker_call_task_fn w1 (task bt), b)) (broker_state w1) of
           (Inl e, b') \<Rightarrow> (Inl e, w1\<lparr>broker_state := b'\<rparr>)
         | (Inr result, b') \<Rightarrow>
             (Inr (),
              w1\<lparr>broker_state := b',
                 active_tasks := AList.delete (task_id (task bt)) (active_tasks w1),
                 result_backend :=
                   map_option (\<lambda>store. store @ [(task_id (task bt), result)]) (result_backend w1)\<rparr>))"

text \<open>
  \<^verbatim>\<open>AsyncWorker._worker\<close>, one executor, on the tasks it receives from the channel in
  order. The loop ends when the channel is exhausted or when its body raises.
\<close>

fun AsyncWorker_worker ::
  "('v, 'ty, 'm, 'b) AsyncWorker \<Rightarrow> 'm BrokerTask list \<Rightarrow> (error + unit) \<times> ('v, 'ty, 'm, 'b) AsyncWorker" where
  "AsyncWorker_worker w [] = (Inr (), w)"
| "AsyncWorker_worker w (bt # recv) =
     (case worker_step w bt of
        (Inl e, w') \<Rightarrow> (Inl e, w')
      | (Inr u, w') \<Rightarrow> AsyncWorker_worker w' recv)"

text \<open>The part of one round of \<^verbatim>\<open>AsyncWorker._claim_pending_tasks\<close> before the sleep.\<close>

definition claim_pending_tasks_step :: "('v, 'ty, 'm, 'b) AsyncWorker \<Rightarrow> ('v, 'ty, 'm, 'b) AsyncWorker" where
  "claim_pending_tasks_step w =
     (if active_tasks w \<noteq> []
      then w\<lparr>broker_state :=
               broker_tasks_healthcheck (broker w) (map snd (active_tasks w)) (broker_state w)\<rparr>
      else w)"


text \<open>
  \<^verbatim>\<open>AsyncWorker._claim_pending_tasks\<close>: each round says whether \<^verbatim>\<open>stop\<close> is set when
  the wait on the sleep ends. With no round left the loop is still waiting.
\<close>

fun AsyncWorker_claim_pending_tasks ::
  "bool list \<Rightarrow> ('v, 'ty, 'm, 'b) AsyncWorker \<Rightarrow> bool \<times> ('v, 'ty, 'm, 'b) AsyncWorker" where
  "AsyncWorker_claim_pending_tasks [] w = (False, w)"
| "AsyncWorker_claim_pending_tasks (stop # rounds) w =
     (let w' = claim_pending_tasks_step w
      in if stop then (True, w') else AsyncWorker_claim_pending_tasks rounds w')"

subsection \<open>The dispatch loop of \<^verbatim>\<open>run\<close>\<close>

text \<open>
  The memory object stream between \<^verbatim>\<open>run\<close> and the executors: what has been sent, in
  order, and whether the sending end is closed.
\<close>

record 'm Channel =
  sent :: "'m BrokerTask list"
  closed :: bool

definition send :: "'m Channel \<Rightarrow> 'm BrokerTask \<Rightarrow> error + 'm Channel" where
  "send ch message =
     (if closed ch then Inl ClosedResourceError else Inr (ch\<lparr>sent := sent ch @ [message]\<rparr>))"

text \<open>
  What the event loop decides is an input. For each round of the \<^verbatim>\<open>while True\<close> loop,
  \<open>completed\<close> says which of \<^verbatim>\<open>stop_task\<close> and \<^verbatim>\<open>read_task\<close> are done and what the
  read returned, \<open>reread\<close> is what one more call of \<^verbatim>\<open>broker.read()\<close> returns
  (\<open>None\<close> when it does not return), and \<open>stop_later\<close> says whether a signal arrives
  between the wait and the test of \<^verbatim>\<open>is_set()\<close> at the end of the round.
\<close>

datatype 'm completed = StopOnly | ReadOnly "'m BrokerTask list" | Both "'m BrokerTask list"

record 'm Round =
  completed :: "'m completed"
  reread :: "'m BrokerTask list option"
  stop_later :: bool

datatype return_when = FIRST_COMPLETED | ALL_COMPLETED

datatype loop_exit = Broke | Waiting

text \<open>
  \<^verbatim>\<open>asyncio.wait\<close> returns once one of the two tasks, or both of them, are done.
\<close>

fun wait_returns :: "return_when \<Rightarrow> 'm completed \<Rightarrow> bool" where
  "wait_returns FIRST_COMPLETED c = True"
| "wait_returns ALL_COMPLETED (Both batch) = True"
| "wait_returns ALL_COMPLETED c = False"

text \<open>\<^verbatim>\<open>read_task.done()\<close> with \<^verbatim>\<open>read_task.result()\<close>, and \<^verbatim>\<open>stop_task.done()\<close>.\<close>

fun read_task :: "'m completed \<Rightarrow> 'm BrokerTask list option" where
  "read_task StopOnly = None"
| "read_task (ReadOnly batch) = Some batch"
| "read_task (Both batch) = Some batch"

fun stop_task :: "'m completed \<Rightarrow> bool" where
  "stop_task (ReadOnly batch) = False"
| "stop_task c = True"

text \<open>
  The \<^verbatim>\<open>for message in read_task.result()\<close> loop of \<^verbatim>\<open>aiotaskqueue/worker.py\<close>: the
  \<^verbatim>\<open>if\<close> has the \<^verbatim>\<open>ack\<close> as its only statement, and the \<^verbatim>\<open>send\<close> follows it for every
  message.
\<close>

fun aiotaskqueue_forward ::
  "('v, 'ty, 'm, 'b) AsyncWorker \<Rightarrow> 'm BrokerTask list \<Rightarrow> 'm Channel \<Rightarrow>
   (error + unit) \<times> ('v, 'ty, 'm, 'b) AsyncWorker \<times> 'm Channel" where
  "aiotaskqueue_forward w [] ch = (Inr (), w, ch)"
| "aiotaskqueue_forward w (message # batch) ch =
     (let w' = (if requeue_count (task message) \<ge> max_delivery_attempts (configuration w)
                then w\<lparr>broker_state := broker_ack (broker w) message (broker_state w)\<rparr>
                else w)
      in case send ch message of
           Inl e \<Rightarrow> (Inl e, w', ch)
         | Inr ch' \<Rightarrow> aiotaskqueue_forward w' batch ch')"

text \<open>
  The loop of \<^verbatim>\<open>AsyncWorker.run\<close> in \<^verbatim>\<open>aiotaskqueue/worker.py\<close>. Its signal handler
  sets the event and leaves the channel open.
\<close>

fun aiotaskqueue_run_loop ::
  "'m Round list \<Rightarrow> ('v, 'ty, 'm, 'b) AsyncWorker \<Rightarrow> 'm Channel \<Rightarrow>
   (error + loop_exit) \<times> ('v, 'ty, 'm, 'b) AsyncWorker \<times> 'm Channel" where
  "aiotaskqueue_run_loop [] w ch = (Inr Waiting, w, ch)"
| "aiotaskqueue_run_loop (rd # rounds) w ch =
     (if \<not> wait_returns FIRST_COMPLETED (completed rd) then (Inr Waiting, w, ch)
      else
        let w1 = w\<lparr>stop_event := stop_event w \<or> stop_task (completed rd)\<rparr>
        in case read_task (completed rd) of
             None \<Rightarrow> (Inr Broke, w1, ch)
           | Some batch \<Rightarrow>
               (case aiotaskqueue_forward w1 batch ch of
                  (Inl e, w2, ch') \<Rightarrow> (Inl e, w2, ch')
                | (Inr u, w2, ch') \<Rightarrow>
                    (let w3 = w2\<lparr>stop_event := stop_event w2 \<or> stop_later rd\<rparr>
                     in if stop_event w3 then (Inr Broke, w3, ch')
                        else aiotaskqueue_run_loop rounds w3 ch')))"

text \<open>The \<^verbatim>\<open>for message in await self._broker.read()\<close> loop of \<^verbatim>\<open>asyncqueue/worker.py\<close>.\<close>

fun asyncqueue_forward :: "'m BrokerTask list \<Rightarrow> 'm Channel \<Rightarrow> error + 'm Channel" where
  "asyncqueue_forward [] ch = Inr ch"
| "asyncqueue_forward (message # batch) ch =
     (case send ch message of
        Inl e \<Rightarrow> Inl e
      | Inr ch' \<Rightarrow> asyncqueue_forward batch ch')"

text \<open>
  The loop of \<^verbatim>\<open>AsyncWorker.run\<close> in \<^verbatim>\<open>asyncqueue/worker.py\<close>: the wait is for
  \<^verbatim>\<open>ALL_COMPLETED\<close>, and the batch that is forwarded comes from a further call of
  \<^verbatim>\<open>broker.read()\<close>. Its signal handler \<^verbatim>\<open>_stop\<close> sets the event and closes the
  sending end of the channel.
\<close>

fun asyncqueue_run_loop ::
  "'m Round list \<Rightarrow> ('v, 'ty, 'm, 'b) AsyncWorker \<Rightarrow> 'm Channel \<Rightarrow>
   (error + loop_exit) \<times> ('v, 'ty, 'm, 'b) AsyncWorker \<times> 'm Channel" where
  "asyncqueue_run_loop [] w ch = (Inr Waiting, w, ch)"
| "asyncqueue_run_loop (rd # rounds) w ch =
     (if \<not> wait_returns ALL_COMPLETED (completed rd) then (Inr Waiting, w, ch)
      else
        let stop1 = stop_event w \<or> stop_task (completed rd);
            w1 = w\<lparr>stop_event := stop1\<rparr>;
            ch1 = ch\<lparr>closed := closed ch \<or> stop_task (completed rd)\<rparr>
        in case read_task (completed rd) of
             None \<Rightarrow> (Inr Broke, w1, ch1)
           | Some raced \<Rightarrow>
               (case reread rd of
                  None \<Rightarrow> (Inr Waiting, w1, ch1)
                | Some batch \<Rightarrow>
                    (case asyncqueue_forward batch ch1 of
                       Inl e \<Rightarrow> (Inl e, w1, ch1)
                     | Inr ch2 \<Rightarrow>
                         (let w2 = w1\<lparr>stop_event := stop1 \<or> stop_later rd\<rparr>;
                              ch3 = ch2\<lparr>closed := closed ch2 \<or> stop_later rd\<rparr>
                          in if stop_event w2 then (Inr Broke, w2, ch3)
                             else asyncqueue_run_loop rounds w2 ch3))))"


subsection \<open>The task group of \<^verbatim>\<open>run\<close>\<close>

text \<open>The exceptions among the outcomes of some tasks, in order.\<close>

fun failures :: "(error + 'a) list \<Rightarrow> error list" where
  "failures [] = []"
| "failures (Inl e # outs) = e # failures outs"
| "failures (Inr x # outs) = failures outs"

text \<open>
  The exit of \<^verbatim>\<open>async with asyncio.TaskGroup()\<close>, once all tasks of the group have
  finished: if some of them have failed with an exception, these exceptions are raised
  together as one group; a cancelled task counts as one that has not failed.
\<close>

definition TaskGroup_aexit :: "(error + unit) list \<Rightarrow> error + unit" where
  "TaskGroup_aexit outcomes =
     (case failures outcomes of
        [] \<Rightarrow> Inr ()
      | e # es \<Rightarrow> Inl (ExceptionGroup (e # es)))"

text \<open>
  The executors that \<^verbatim>\<open>run\<close> creates with \<^verbatim>\<open>self._worker(recv=recv.clone())\<close>, each
  on the tasks that it receives from the channel; they share the attributes of the
  worker. The result has the outcome of each executor.
\<close>

fun executors ::
  "('v, 'ty, 'm, 'b) AsyncWorker \<Rightarrow> 'm BrokerTask list list \<Rightarrow>
   (error + unit) list \<times> ('v, 'ty, 'm, 'b) AsyncWorker" where
  "executors w [] = ([], w)"
| "executors w (recv # recvs) =
     (case AsyncWorker_worker w recv of
        (out, w') \<Rightarrow>
          (case executors w' recvs of
             (outs, w'') \<Rightarrow> (out # outs, w'')))"

text \<open>
  \<^verbatim>\<open>AsyncWorker.run\<close>: the dispatch loop is the body of a task group whose tasks are
  the executors, one for each number in \<^verbatim>\<open>range(self._concurrency)\<close> (and the
  maintenance and heartbeat tasks, which raise nothing here). The loop is a parameter,
  for the two \<^verbatim>\<open>worker.py\<close>. Which tasks of the channel each executor receives is
  decided by the event loop and is an input, one list for each executor. When a task of
  the group fails, the group cancels the body and the other tasks; \<^verbatim>\<open>_shutdown_tasks\<close>
  sets the stop event, closes the channel and waits for the tasks, and the exit of the
  group raises the failures, those of the tasks before that of the body. The result is
  \<open>None\<close> as long as nothing has failed and the loop is waiting: \<^verbatim>\<open>run\<close> has not
  returned.
\<close>

definition AsyncWorker_run ::
  "('m Round list \<Rightarrow> ('v, 'ty, 'm, 'b) AsyncWorker \<Rightarrow> 'm Channel \<Rightarrow>
      (error + loop_exit) \<times> ('v, 'ty, 'm, 'b) AsyncWorker \<times> 'm Channel) \<Rightarrow>
   'm Round list \<Rightarrow> 'm BrokerTask list list \<Rightarrow> ('v, 'ty, 'm, 'b) AsyncWorker \<Rightarrow> 'm Channel \<Rightarrow>
   (error + unit) option \<times> ('v, 'ty, 'm, 'b) AsyncWorker \<times> 'm Channel" where
  "AsyncWorker_run loop rounds recvs w ch =
     (case loop rounds w ch of
        (body, w1, ch1) \<Rightarrow>
          (case executors w1 (take (nat (concurrency w)) recvs) of
             (outs, w2) \<Rightarrow>
               (let outcomes = outs @ [case body of Inl e \<Rightarrow> Inl e | Inr x \<Rightarrow> Inr ()]
                in if failures outcomes = [] \<and> body = Inr Waiting then (None, w2, ch1)
                   else (Some (TaskGroup_aexit outcomes),
                         w2\<lparr>stop_event := True\<rparr>, ch1\<lparr>closed := True\<rparr>))))"

section \<open>Notions used in the statements\<close>

text \<open>
  The entries that the maintenance loop claims, over its rounds in order, until the
  round after which \<^verbatim>\<open>stop\<close> is set.
\<close>

fun claimed_by :: "('a list \<times> bool) list \<Rightarrow> 'a list" where
  "claimed_by [] = []"
| "claimed_by ((messages, stop) # rounds) =
     messages @ (if stop then [] else claimed_by rounds)"

text \<open>The number of rounds that the heartbeat goes through, until \<^verbatim>\<open>stop\<close> is set.\<close>

fun heartbeat_rounds :: "bool list \<Rightarrow> nat" where
  "heartbeat_rounds [] = 0"
| "heartbeat_rounds (stop # rounds) = Suc (if stop then 0 else heartbeat_rounds rounds)"

text \<open>
  The backend whose \<^verbatim>\<open>serialize\<close> method \<open>serialize\<close> calls, in the words of its
  description: the first backend of the registry that reports the value serializable,
  the default backend when there is none.
\<close>

definition selected_backend ::
  "'v \<Rightarrow> ('v, 'ty) SerializationBackend \<Rightarrow> ('v, 'ty) registry \<Rightarrow> ('v, 'ty) SerializationBackend" where
  "selected_backend v default_backend backends =
     (case find (\<lambda>(k, backend). serializable backend v) backends of
        None \<Rightarrow> default_backend
      | Some (k, backend) \<Rightarrow> backend)"

text \<open>Some backend of the registry reports the value serializable.\<close>

definition claimed :: "('v, 'ty) registry \<Rightarrow> 'v \<Rightarrow> bool" where
  "claimed backends v = list_ex (\<lambda>(k, backend). serializable backend v) backends"

text \<open>The backend encodes the value, and decodes that encoding at the type hint to the value.\<close>

definition round_trips :: "('v, 'ty) SerializationBackend \<Rightarrow> 'v \<Rightarrow> 'ty \<Rightarrow> bool" where
  "round_trips backend v ty =
     (case backend_serialize backend v of
        Inl e \<Rightarrow> False
      | Inr bs \<Rightarrow> backend_deserialize backend bs ty = Inr v)"

text \<open>The registry is a dict (its keys are distinct) that maps each backend's id to it.\<close>

definition keyed_by_id :: "('v, 'ty) registry \<Rightarrow> bool" where
  "keyed_by_id backends =
     (distinct (map fst backends) \<and> list_all (\<lambda>(k, backend). k = backend_id backend) backends)"

text \<open>
  The definition of the instance declares a type for each of its positional arguments
  and for each of its keywords; each argument is reported serializable by a backend of
  the registry, and the selected backend decodes its encoding at the declared type.
\<close>

definition declared_and_round_trips ::
  "('v, 'ty) TaskInstance \<Rightarrow> ('v, 'ty) SerializationBackend \<Rightarrow> ('v, 'ty) registry \<Rightarrow> bool" where
  "declared_and_round_trips inst d reg =
     (length (inst_args inst) \<le> length (arg_types (inst_task inst)) \<and>
      list_all (\<lambda>(v, ty). claimed reg v \<and> round_trips (selected_backend v d reg) v ty)
        (zip (inst_args inst) (arg_types (inst_task inst))) \<and>
      list_all (\<lambda>(key, v). claimed reg v \<and>
          (case map_of (kwarg_types (inst_task inst)) key of
             None \<Rightarrow> False
           | Some ty \<Rightarrow> round_trips (selected_backend v d reg) v ty))
        (inst_kwargs inst))"

section \<open>Example objects\<close>

text \<open>
  A small universe of Python values and type hints, three backends, a task and a worker
  on the Redis broker, on which the theorems below are instantiated.
  \<open>byte_backend\<close> encodes an integer in one byte and \<open>word16_backend\<close> in two; both
  report every integer serializable and raise on one that does not fit.
\<close>

datatype pyval = IntV int | BytesV bytes | PublisherV

datatype pytype = IntT | BytesT

definition byte_backend :: "(pyval, pytype) SerializationBackend" where
  "byte_backend =
     \<lparr>backend_id = ''byte'',
      backend_serialize = (\<lambda>v. case v of
         IntV n \<Rightarrow> if 0 \<le> n \<and> n < 256 then Inr [word_of_int n] else Inl EncodeError
       | _ \<Rightarrow> Inl EncodeError),
      backend_deserialize = (\<lambda>bs ty. case (bs, ty) of
         ([w], IntT) \<Rightarrow> Inr (IntV (uint w))
       | _ \<Rightarrow> Inl DecodeError),
      serializable = (\<lambda>v. case v of IntV n \<Rightarrow> True | _ \<Rightarrow> False)\<rparr>"

definition word16_backend :: "(pyval, pytype) SerializationBackend" where
  "word16_backend =
     \<lparr>backend_id = ''word16'',
      backend_serialize = (\<lambda>v. case v of
         IntV n \<Rightarrow> if 0 \<le> n \<and> n < 65536
                   then Inr [word_of_int (n div 256), word_of_int (n mod 256)]
                   else Inl EncodeError
       | _ \<Rightarrow> Inl EncodeError),
      backend_deserialize = (\<lambda>bs ty. case (bs, ty) of
         ([hi, lo], IntT) \<Rightarrow> Inr (IntV (uint hi * 256 + uint lo))
       | _ \<Rightarrow> Inl DecodeError),
      serializable = (\<lambda>v. case v of IntV n \<Rightarrow> True | _ \<Rightarrow> False)\<rparr>"

definition raw_backend :: "(pyval, pytype) SerializationBackend" where
  "raw_backend =
     \<lparr>backend_id = ''raw'',
      backend_serialize = (\<lambda>v. case v of BytesV bs \<Rightarrow> Inr bs | _ \<Rightarrow> Inl EncodeError),
      backend_deserialize = (\<lambda>bs ty. case ty of BytesT \<Rightarrow> Inr (BytesV bs) | _ \<Rightarrow> Inl DecodeError),
      serializable = (\<lambda>v. case v of BytesV bs \<Rightarrow> True | _ \<Rightarrow> False)\<rparr>"

definition example_backends :: "(pyval, pytype) registry" where
  "example_backends = [(''byte'', byte_backend), (''raw'', raw_backend)]"

text \<open>A task with one positional-or-keyword integer parameter \<open>a\<close> and a bytes parameter \<open>b\<close>.\<close>

definition task_with_params :: "(pyval, pytype) TaskDefinition" where
  "task_with_params =
     \<lparr>params_name = ''task-with-params'',
      func = (\<lambda>as ks. case as of [IntV n] \<Rightarrow> Inr (IntV (n + 1)) | _ \<Rightarrow> Inl TaskError),
      arg_types = [IntT],
      kwarg_types = [(''a'', IntT), (''b'', BytesT)],
      publisher_params = []\<rparr>"

definition example_instance :: "(pyval, pytype) TaskInstance" where
  "example_instance =
     \<lparr>inst_task = task_with_params, inst_args = [IntV 7], inst_kwargs = [(''b'', BytesV [1, 2])]\<rparr>"

definition example_configuration :: "(pyval, pytype) Configuration" where
  "example_configuration =
     \<lparr>max_delivery_attempts = 3, healthcheck_interval = 5000000, timeout_interval = 10000000,
      serialization_backends = example_backends\<rparr>"

definition example_record :: "string \<Rightarrow> string \<Rightarrow> int \<Rightarrow> TaskRecord" where
  "example_record i name n =
     \<lparr>task_id = i, task_name = name, requeue_count = n, enqueue_time = 0,
      args = [(''byte'', [7])], kwargs = []\<rparr>"

definition example_task :: "string \<Rightarrow> string \<Rightarrow> int \<Rightarrow> entry_id \<Rightarrow> RedisMeta BrokerTask" where
  "example_task i name n e = \<lparr>task = example_record i name n, meta = \<lparr>meta_id = e\<rparr>\<rparr>"

text \<open>A stream on which the entries 3 and 4 have been delivered and not yet acknowledged.\<close>

definition example_redis :: Redis where
  "example_redis =
     \<lparr>stream = [(3, example_record ''t0'' ''missing'' 0),
                (4, example_record ''t1'' ''task-with-params'' 3)],
      pending = [(3, 40), (4, 30)], next_entry = 5, commands = []\<rparr>"

definition example_worker :: "(pyval, pytype, RedisMeta, Redis) AsyncWorker" where
  "example_worker =
     \<lparr>broker = RedisBroker, broker_state = example_redis, publisher = PublisherV,
      result_backend = Some [], tasks = [(''task-with-params'', task_with_params)],
      configuration = example_configuration, concurrency = 1, stop_event = False,
      active_tasks = []\<rparr>"

definition open_channel :: "RedisMeta Channel" where
  "open_channel = \<lparr>sent = [], closed = False\<rparr>"


section \<open>Codec selection\<close>

lemma serialize_selected: "serialize v d reg = serialize_with (selected_backend v d reg) v"
  by (induction reg) (auto simp: selected_backend_def)

lemma selected_in_registry:
  "claimed reg v \<Longrightarrow> \<exists>k. (k, selected_backend v d reg) \<in> set reg"
  by (induction reg) (auto simp: selected_backend_def claimed_def)

lemma lookup_selected:
  assumes "keyed_by_id reg" "claimed reg v"
  shows "map_of reg (backend_id (selected_backend v d reg)) = Some (selected_backend v d reg)"
proof -
  from selected_in_registry [OF assms(2)] obtain k where k: "(k, selected_backend v d reg) \<in> set reg"
    by blast
  with assms(1) have "k = backend_id (selected_backend v d reg)"
    by (auto simp: keyed_by_id_def list_all_iff)
  with k assms(1) show ?thesis
    by (auto simp: keyed_by_id_def)
qed

text \<open>
  Claim C7, amended. For every value, default backend and registry, \<open>serialize\<close> goes
  through the registry in insertion order and calls \<^verbatim>\<open>serialize\<close> of the first backend
  that reports the value serializable, or of the default backend when no backend does.
  It returns that backend's id with its encoding, and it fails exactly when that
  backend's \<^verbatim>\<open>serialize\<close> raises, whether the backend is the default one or one of the
  registry.
\<close>

theorem serialize_selects_first_claiming:
  "serialize v d reg =
     (case backend_serialize (selected_backend v d reg) v of
        Inl e \<Rightarrow> Inl e
      | Inr bs \<Rightarrow> Inr (backend_id (selected_backend v d reg), bs)) \<and>
   ((\<exists>e. serialize v d reg = Inl e) \<longleftrightarrow>
    (\<exists>e. backend_serialize (selected_backend v d reg) v = Inl e))"
  by (auto simp: serialize_selected serialize_with_def split: sum.splits)

text \<open>The theorem at a bytes value, which the second backend of the registry takes.\<close>

theorem serialize_selects_first_claiming_witness:
  "serialize (BytesV [1, 2]) word16_backend example_backends = Inr (''raw'', [1, 2])"
  using serialize_selects_first_claiming [of "BytesV [1, 2]" word16_backend example_backends]
  by (simp add: selected_backend_def example_backends_def byte_backend_def raw_backend_def)

text \<open>
  Claim C7 as stated says that the operation fails only if the default backend raises.
  Here the one-byte backend of the registry takes the integer 300 and raises on it,
  while the default backend encodes 300 without an error.
\<close>

theorem serialize_fails_counterexample:
  "serialize (IntV 300) word16_backend example_backends = Inl EncodeError \<and>
   backend_serialize word16_backend (IntV 300) = Inr [1, 44]"
  by (simp add: example_backends_def byte_backend_def word16_backend_def serialize_with_def)

section \<open>Decoding a record\<close>

lemma collect_length: "collect f xs = Inr ys \<Longrightarrow> length ys = length xs"
  by (induction xs arbitrary: ys) (auto split: sum.splits)

lemma zip_take_left: "zip (take (length ys) xs) ys = zip xs ys"
proof (induction ys arbitrary: xs)
  case Nil
  then show ?case by simp
next
  case (Cons y ys)
  then show ?case by (cases xs) simp_all
qed

text \<open>
  Claim C8, amended. \<open>deserialize_task\<close> decodes the positional entries of the record
  that have a declared type and ignores the entries after them: its result is the one
  for the record cut to the number of declared types, and when it returns, the number
  of decoded positional arguments is the smaller of the number of entries in
  \<^verbatim>\<open>record.args\<close> and the number of declared types.
\<close>

theorem deserialize_task_truncates:
  "deserialize_task d r reg =
     deserialize_task d (r\<lparr>args := take (length (arg_types d)) (args r)\<rparr>) reg \<and>
   (\<forall>as ks. deserialize_task d r reg = Inr (as, ks) \<longrightarrow>
      length as = min (length (args r)) (length (arg_types d)))"
proof
  show "deserialize_task d r reg =
     deserialize_task d (r\<lparr>args := take (length (arg_types d)) (args r)\<rparr>) reg"
    by (simp add: deserialize_task_def zip_take_left cong: sum.case_cong)
  show "\<forall>as ks. deserialize_task d r reg = Inr (as, ks) \<longrightarrow>
      length as = min (length (args r)) (length (arg_types d))"
    by (auto simp: deserialize_task_def split: sum.splits dest!: collect_length)
qed

text \<open>The theorem at a record with one positional entry, for a task that declares one type.\<close>

theorem deserialize_task_truncates_witness:
  "deserialize_task task_with_params (example_record ''t'' ''task-with-params'' 0) example_backends
     = Inr ([IntV 7], []) \<and>
   length [IntV 7] = min (length (args (example_record ''t'' ''task-with-params'' 0)))
                         (length (arg_types task_with_params))"
proof -
  have eq: "deserialize_task task_with_params (example_record ''t'' ''task-with-params'' 0) example_backends
     = Inr ([IntV 7], [])"
    by (simp add: deserialize_task_def task_with_params_def example_record_def example_backends_def
        deserialize_arg_def byte_backend_def)
  with deserialize_task_truncates
    [of task_with_params "example_record ''t'' ''task-with-params'' 0" example_backends]
  show ?thesis by simp
qed

text \<open>
  Claim C8 as stated says that the extra positional entries are decoded or make the
  operation fail. Here the record has three entries and the task declares one type:
  the operation returns one decoded argument, and the third entry, which names a
  backend that is not in the registry, raises nothing.
\<close>

theorem deserialize_task_drops_counterexample:
  "deserialize_task task_with_params
     \<lparr>task_id = ''t'', task_name = ''task-with-params'', requeue_count = 0, enqueue_time = 0,
      args = [(''byte'', [7]), (''byte'', [8]), (''nowhere'', [])], kwargs = []\<rparr>
     example_backends
   = Inr ([IntV 7], [])"
  by (simp add: deserialize_task_def task_with_params_def example_backends_def
      deserialize_arg_def byte_backend_def)


section \<open>Round trip of a task through its record\<close>

lemma serialize_then_deserialize_arg:
  assumes "keyed_by_id reg" "claimed reg v" "round_trips (selected_backend v d reg) v ty"
  shows "\<exists>p. serialize v d reg = Inr p \<and> deserialize_arg reg (p, ty) = Inr v"
  using assms(3) lookup_selected [OF assms(1,2), of d]
  by (auto simp: serialize_selected serialize_with_def round_trips_def deserialize_arg_def
      split: sum.splits)

lemma collect_args_round_trip:
  assumes "keyed_by_id reg"
  shows "length vs \<le> length tys \<Longrightarrow>
    \<forall>(v, ty) \<in> set (zip vs tys). claimed reg v \<and> round_trips (selected_backend v d reg) v ty \<Longrightarrow>
    \<exists>ps. collect (\<lambda>v. serialize v d reg) vs = Inr ps \<and>
          collect (deserialize_arg reg) (zip ps tys) = Inr vs"
proof (induction vs arbitrary: tys)
  case Nil
  then show ?case by simp
next
  case (Cons v vs)
  then obtain ty tys' where tys: "tys = ty # tys'" by (cases tys) auto
  with Cons.prems have "claimed reg v" "round_trips (selected_backend v d reg) v ty" by auto
  from serialize_then_deserialize_arg [OF assms this]
  obtain p where p: "serialize v d reg = Inr p" "deserialize_arg reg (p, ty) = Inr v" by blast
  from Cons.IH [of tys'] Cons.prems tys
  obtain ps where ps: "collect (\<lambda>v. serialize v d reg) vs = Inr ps"
    "collect (deserialize_arg reg) (zip ps tys') = Inr vs" by auto
  show ?case using p ps tys by simp
qed

lemma collect_kwargs_round_trip:
  assumes "keyed_by_id reg"
  shows "\<forall>(key, v) \<in> set kws. claimed reg v \<and>
           (case map_of kwtypes key of
              None \<Rightarrow> False
            | Some ty \<Rightarrow> round_trips (selected_backend v d reg) v ty) \<Longrightarrow>
    \<exists>ps. collect (\<lambda>(key, v). case serialize v d reg of Inl e \<Rightarrow> Inl e | Inr p \<Rightarrow> Inr (key, p)) kws = Inr ps \<and>
          collect (deserialize_kwarg reg kwtypes) ps = Inr kws"
proof (induction kws)
  case Nil
  then show ?case by simp
next
  case (Cons kv kws)
  obtain key v where kv: "kv = (key, v)" by (cases kv)
  with Cons.prems obtain ty where ty: "map_of kwtypes key = Some ty"
    and c: "claimed reg v" and r: "round_trips (selected_backend v d reg) v ty"
    by (auto split: option.splits)
  from serialize_then_deserialize_arg [OF assms c r]
  obtain p where p: "serialize v d reg = Inr p" "deserialize_arg reg (p, ty) = Inr v" by blast
  from p(2) ty have dk: "deserialize_kwarg reg kwtypes (key, p) = Inr (key, v)"
    by (cases p) (auto simp: deserialize_arg_def deserialize_kwarg_def split: option.splits)
  from Cons.IH Cons.prems
  obtain ps where ps:
    "collect (\<lambda>(key, v). case serialize v d reg of Inl e \<Rightarrow> Inl e | Inr p \<Rightarrow> Inr (key, p)) kws = Inr ps"
    "collect (deserialize_kwarg reg kwtypes) ps = Inr kws" by auto
  show ?case using p(1) dk ps kv by simp
qed

text \<open>
  Claim C2, amended. Let the registry map each backend's id to it. For every task
  instance whose definition declares a type for each of its positional arguments and
  for each of its keywords, and whose every argument is reported serializable by some
  backend of the registry and decoded by the selected backend, at the declared type,
  from its own encoding: \<open>serialize_task\<close> returns a record, and \<open>deserialize_task\<close>
  on that record, with the same registry and the definition of the task, returns the
  original positional and keyword arguments.
\<close>

theorem serialize_task_round_trip:
  assumes "keyed_by_id reg" and "declared_and_round_trips inst d reg"
  shows "\<exists>record. serialize_task uuid now inst d reg = Inr record \<and>
           deserialize_task (inst_task inst) record reg = Inr (inst_args inst, inst_kwargs inst)"
proof -
  from assms(2) have len: "length (inst_args inst) \<le> length (arg_types (inst_task inst))"
    and pos: "\<forall>(v, ty) \<in> set (zip (inst_args inst) (arg_types (inst_task inst))).
                claimed reg v \<and> round_trips (selected_backend v d reg) v ty"
    and kw: "\<forall>(key, v) \<in> set (inst_kwargs inst). claimed reg v \<and>
           (case map_of (kwarg_types (inst_task inst)) key of
              None \<Rightarrow> False
            | Some ty \<Rightarrow> round_trips (selected_backend v d reg) v ty)"
    by (simp_all add: declared_and_round_trips_def list_all_iff)
  from collect_args_round_trip [OF assms(1) len pos]
  obtain as where as: "collect (\<lambda>v. serialize v d reg) (inst_args inst) = Inr as"
    "collect (deserialize_arg reg) (zip as (arg_types (inst_task inst))) = Inr (inst_args inst)"
    by blast
  from collect_kwargs_round_trip [OF assms(1) kw]
  obtain ks where ks:
    "collect (\<lambda>(key, v). case serialize v d reg of Inl e \<Rightarrow> Inl e | Inr p \<Rightarrow> Inr (key, p))
       (inst_kwargs inst) = Inr ks"
    "collect (deserialize_kwarg reg (kwarg_types (inst_task inst))) ks = Inr (inst_kwargs inst)"
    by blast
  show ?thesis using as ks by (simp add: serialize_task_def deserialize_task_def)
qed

lemma example_keyed: "keyed_by_id example_backends"
  by (simp add: keyed_by_id_def example_backends_def byte_backend_def raw_backend_def)

lemma example_declared: "declared_and_round_trips example_instance word16_backend example_backends"
  by (simp add: declared_and_round_trips_def example_instance_def task_with_params_def
      example_backends_def claimed_def round_trips_def selected_backend_def
      byte_backend_def raw_backend_def)

text \<open>The theorem at a call with one positional integer and the keyword \<open>b\<close>.\<close>

theorem serialize_task_round_trip_witness:
  "keyed_by_id example_backends \<and>
   declared_and_round_trips example_instance word16_backend example_backends \<and>
   (\<exists>record. serialize_task ''u'' 0 example_instance word16_backend example_backends = Inr record \<and>
      deserialize_task task_with_params record example_backends = Inr ([IntV 7], [(''b'', BytesV [1, 2])]))"
  using serialize_task_round_trip [OF example_keyed example_declared, of "''u''" 0]
    example_keyed example_declared
  by (simp add: example_instance_def)

text \<open>
  Claim C2 as stated asks only that each argument is serializable by a backend of the
  registry. Here both positional arguments are, and the definition declares one
  positional type: the record holds both encodings and decoding it returns the first
  argument alone.
\<close>

theorem round_trip_counterexample:
  "claimed example_backends (IntV 7) \<and> claimed example_backends (IntV 8) \<and>
   serialize_task ''u'' 0
     \<lparr>inst_task = task_with_params, inst_args = [IntV 7, IntV 8], inst_kwargs = []\<rparr>
     word16_backend example_backends
   = Inr \<lparr>task_id = ''u'', task_name = ''task-with-params'', requeue_count = 0, enqueue_time = 0,
          args = [(''byte'', [7]), (''byte'', [8])], kwargs = []\<rparr> \<and>
   deserialize_task task_with_params
     \<lparr>task_id = ''u'', task_name = ''task-with-params'', requeue_count = 0, enqueue_time = 0,
      args = [(''byte'', [7]), (''byte'', [8])], kwargs = []\<rparr>
     example_backends
   = Inr ([IntV 7], [])"
  by (simp add: claimed_def serialize_task_def deserialize_task_def task_with_params_def
      example_backends_def deserialize_arg_def byte_backend_def raw_backend_def serialize_with_def)

section \<open>The Redis stream broker: acknowledgement and reclamation\<close>

text \<open>
  Claim C5. The \<^verbatim>\<open>ack_context\<close> of the Redis broker acknowledges the task exactly
  when the scope exits normally. When the body returns, the scope returns its value,
  one \<^verbatim>\<open>XACK\<close> of the task's entry follows the commands of the body, and the entry is
  no longer pending. When the body raises, the scope raises the same exception, sends no
  command, and leaves the pending entries as the body left them.
\<close>

theorem ack_context_acks_exactly_on_normal_exit:
  assumes "body r = (res, r')"
  shows "fst (RedisBroker_ack_context bt body r) = res \<and>
    (\<forall>x. res = Inr x \<longrightarrow>
       commands (snd (RedisBroker_ack_context bt body r)) = commands r' @ [XACK (meta_id (meta bt))] \<and>
       meta_id (meta bt) \<notin> fst ` set (pending (snd (RedisBroker_ack_context bt body r)))) \<and>
    (\<forall>e. res = Inl e \<longrightarrow>
       commands (snd (RedisBroker_ack_context bt body r)) = commands r' \<and>
       pending (snd (RedisBroker_ack_context bt body r)) = pending r')"
  using assms by (cases res) (auto simp: RedisBroker_ack_context_def xack_def)

text \<open>The theorem at a body that returns and at a body that raises, for the pending entry 3.\<close>

theorem ack_context_acks_exactly_on_normal_exit_witness:
  "snd (RedisBroker_ack_context (example_task ''t0'' ''missing'' 0 3)
          (\<lambda>r. (Inr (IntV 8), r)) example_redis)
     = example_redis\<lparr>pending := [(4, 30)], commands := [XACK 3]\<rparr> \<and>
   RedisBroker_ack_context (example_task ''t0'' ''missing'' 0 3)
          (\<lambda>r. (Inl TaskError :: error + pyval, r)) example_redis
     = (Inl TaskError, example_redis)"
  using ack_context_acks_exactly_on_normal_exit
      [where body = "\<lambda>r. (Inr (IntV 8), r)" and r = example_redis and res = "Inr (IntV 8)"
         and r' = example_redis and bt = "example_task ''t0'' ''missing'' 0 3"]
    ack_context_acks_exactly_on_normal_exit
      [where body = "\<lambda>r. (Inl TaskError :: error + pyval, r)" and r = example_redis
         and res = "Inl TaskError" and r' = example_redis
         and bt = "example_task ''t0'' ''missing'' 0 3"]
  by (simp add: RedisBroker_ack_context_def xack_def example_redis_def example_task_def)

lemma requeue_claimed_commands:
  "commands (requeue_claimed messages r) =
     commands r @ concat (map (\<lambda>(i, t). [XADD (t\<lparr>requeue_count := requeue_count t + 1\<rparr>), XACK i]) messages)"
  by (induction messages arbitrary: r) (auto simp: RedisBroker_enqueue_def xadd_def xack_def)

lemma requeue_claimed_stream:
  "map snd (stream (requeue_claimed messages r)) =
     map snd (stream r) @ map (\<lambda>(i, t). t\<lparr>requeue_count := requeue_count t + 1\<rparr>) messages"
  by (induction messages arbitrary: r) (auto simp: RedisBroker_enqueue_def xadd_def xack_def)

lemma requeue_claimed_pending:
  "pending (requeue_claimed messages r) =
     filter (\<lambda>(j, idle). j \<notin> fst ` set messages) (pending r)"
  by (induction messages arbitrary: r)
     (auto simp: RedisBroker_enqueue_def xadd_def xack_def intro!: filter_cong)

lemma serialize_task_requeue_count:
  "serialize_task uuid now inst d reg = Inr record \<Longrightarrow> requeue_count record = 0"
  by (auto simp: serialize_task_def split: sum.splits)


lemma requeue_count_funpow:
  "requeue_count (((\<lambda>t. t\<lparr>requeue_count := requeue_count t + 1\<rparr>) ^^ k) t) = requeue_count t + int k"
  by (induction k) simp_all

lemma requeue_claimed_ids:
  "map fst (stream (requeue_claimed messages r)) =
     map fst (stream r) @ [next_entry r ..< next_entry r + length messages] \<and>
   next_entry (requeue_claimed messages r) = next_entry r + length messages"
proof (induction messages arbitrary: r)
  case Nil
  then show ?case by simp
next
  case (Cons m messages)
  obtain i t where m: "m = (i, t)" by (cases m)
  let ?r = "xack i (RedisBroker_enqueue (t\<lparr>requeue_count := requeue_count t + 1\<rparr>) r)"
  have r: "map fst (stream ?r) = map fst (stream r) @ [next_entry r]"
    "next_entry ?r = Suc (next_entry r)"
    by (simp_all add: RedisBroker_enqueue_def xadd_def xack_def)
  have up: "[next_entry r ..< next_entry r + length (m # messages)] =
      next_entry r # [Suc (next_entry r) ..< Suc (next_entry r) + length messages]"
    by (subst upt_conv_Cons) simp_all
  have ih: "map fst (stream (requeue_claimed messages ?r)) =
      map fst (stream ?r) @ [next_entry ?r ..< next_entry ?r + length messages]"
    "next_entry (requeue_claimed messages ?r) = next_entry ?r + length messages"
    using Cons.IH [of ?r] by blast+
  have unroll: "requeue_claimed (m # messages) r = requeue_claimed messages ?r"
    by (simp add: m)
  show ?case
    unfolding unroll ih r up by simp
qed

lemma requeue_claimed_append:
  "requeue_claimed (xs @ ys) r = requeue_claimed ys (requeue_claimed xs r)"
  by (induction xs arbitrary: r) auto

lemma maintenance_loop_state:
  "snd (RedisBroker_maintenance_claim_pending_records rounds r) =
     requeue_claimed (claimed_by rounds) r"
  by (induction rounds arbitrary: r) (auto simp: Let_def requeue_claimed_append)

lemma maintenance_loop_returns:
  "fst (RedisBroker_maintenance_claim_pending_records rounds r) = list_ex snd rounds"
  by (induction rounds arbitrary: r) (auto simp: Let_def split: if_splits)

text \<open>
  Claim C6. Over the rounds of the maintenance loop, for the entries that it claims, in
  order: the loop adds to the stream a record equal to the decoded one except that
  \<^verbatim>\<open>requeue_count\<close> is greater by one, and then acknowledges the claimed entry, which
  leaves the pending entries; the loop sends no other command, and it returns when
  \<^verbatim>\<open>stop\<close> is set after one of its rounds. The same holds of the \<^verbatim>\<open>for\<close> loop over the
  messages of one reply, whose new entries take the next ids of the stream. A record made by \<open>serialize_task\<close> has \<^verbatim>\<open>requeue_count\<close> 0,
  and after \<open>k\<close> reclamations it has \<^verbatim>\<open>requeue_count\<close> \<open>k\<close>: the count is never
  negative and never decreases.
\<close>

theorem maintenance_requeues_with_incremented_count:
  "commands (snd (RedisBroker_maintenance_claim_pending_records rounds r)) =
     commands r @ concat (map (\<lambda>(i, t). [XADD (t\<lparr>requeue_count := requeue_count t + 1\<rparr>), XACK i])
                           (claimed_by rounds)) \<and>
   map snd (stream (snd (RedisBroker_maintenance_claim_pending_records rounds r))) =
     map snd (stream r) @ map (\<lambda>(i, t). t\<lparr>requeue_count := requeue_count t + 1\<rparr>) (claimed_by rounds) \<and>
   pending (snd (RedisBroker_maintenance_claim_pending_records rounds r)) =
     filter (\<lambda>(j, idle). j \<notin> fst ` set (claimed_by rounds)) (pending r) \<and>
   fst (RedisBroker_maintenance_claim_pending_records rounds r) = list_ex snd rounds \<and>
   snd (RedisBroker_maintenance_claim_pending_records rounds r) =
     requeue_claimed (claimed_by rounds) r \<and>
   commands (requeue_claimed messages r) =
     commands r @ concat (map (\<lambda>(i, t). [XADD (t\<lparr>requeue_count := requeue_count t + 1\<rparr>), XACK i]) messages) \<and>
   map snd (stream (requeue_claimed messages r)) =
     map snd (stream r) @ map (\<lambda>(i, t). t\<lparr>requeue_count := requeue_count t + 1\<rparr>) messages \<and>
   pending (requeue_claimed messages r) =
     filter (\<lambda>(j, idle). j \<notin> fst ` set messages) (pending r) \<and>
   map fst (stream (requeue_claimed messages r)) =
     map fst (stream r) @ [next_entry r ..< next_entry r + length messages] \<and>
   next_entry (requeue_claimed messages r) = next_entry r + length messages \<and>
   (\<forall>record. serialize_task uuid now inst d reg = Inr record \<longrightarrow>
      requeue_count record = 0 \<and>
      (\<forall>k. requeue_count (((\<lambda>t. t\<lparr>requeue_count := requeue_count t + 1\<rparr>) ^^ k) record) = int k))"
  by (simp add: maintenance_loop_state maintenance_loop_returns
      requeue_claimed_commands requeue_claimed_stream requeue_claimed_pending
      requeue_claimed_ids serialize_task_requeue_count requeue_count_funpow)

text \<open>
  The theorem at a loop of two rounds, which claim entry 4 and then entry 3 (a third
  round is not reached), and at the record of the example instance.
\<close>

theorem maintenance_requeues_with_incremented_count_witness:
  "RedisBroker_maintenance_claim_pending_records
     [([(4, example_record ''t1'' ''task-with-params'' 3)], False),
      ([(3, example_record ''t0'' ''missing'' 0)], True),
      ([(9, example_record ''t9'' ''missing'' 0)], False)] example_redis =
    (True,
     \<lparr>stream = [(3, example_record ''t0'' ''missing'' 0),
                (4, example_record ''t1'' ''task-with-params'' 3),
                (5, example_record ''t1'' ''task-with-params'' 4),
                (6, example_record ''t0'' ''missing'' 1)],
      pending = [], next_entry = 7,
      commands = [XADD (example_record ''t1'' ''task-with-params'' 4), XACK 4,
                  XADD (example_record ''t0'' ''missing'' 1), XACK 3]\<rparr>) \<and>
   serialize_task ''u'' 0 example_instance word16_backend example_backends =
     Inr \<lparr>task_id = ''u'', task_name = ''task-with-params'', requeue_count = 0, enqueue_time = 0,
          args = [(''byte'', [7])], kwargs = [(''b'', (''raw'', [1, 2]))]\<rparr>"
  using maintenance_requeues_with_incremented_count
    [where rounds = "[([(4, example_record ''t1'' ''task-with-params'' 3)], False),
                      ([(3, example_record ''t0'' ''missing'' 0)], True),
                      ([(9, example_record ''t9'' ''missing'' 0)], False)]"
       and messages = "[(4, example_record ''t1'' ''task-with-params'' 3)]" and r = example_redis
       and uuid = "''u''" and now = 0 and inst = example_instance
       and d = word16_backend and reg = example_backends]
  by (simp add: example_redis_def example_record_def RedisBroker_enqueue_def xadd_def xack_def
      serialize_task_def example_instance_def task_with_params_def example_backends_def
      byte_backend_def raw_backend_def serialize_with_def)

section \<open>Construction of a worker\<close>

text \<open>
  Claim C9, amended. \<^verbatim>\<open>AsyncWorker.__init__\<close> does not compare the two intervals:
  for every configuration it returns a worker that holds this configuration, with no
  active task and with the stop event unset.
\<close>

theorem init_never_fails:
  "\<exists>w. AsyncWorker_init br b pub rb ts cfg n = Inr w \<and>
       configuration w = cfg \<and> active_tasks w = [] \<and> \<not> stop_event w"
  by (simp add: AsyncWorker_init_def)

text \<open>
  Claim C9 as stated says that construction fails when \<^verbatim>\<open>healthcheck_interval\<close> is
  not less than \<^verbatim>\<open>timeout_interval\<close>. Here the healthcheck interval is ten seconds and
  the timeout interval five, and construction returns the worker.
\<close>

theorem init_accepts_long_healthcheck_counterexample:
  "AsyncWorker_init RedisBroker example_redis PublisherV None
     [(''task-with-params'', task_with_params)]
     \<lparr>max_delivery_attempts = 3, healthcheck_interval = 10000000, timeout_interval = 5000000,
      serialization_backends = example_backends\<rparr> 1
   = Inr \<lparr>broker = RedisBroker, broker_state = example_redis, publisher = PublisherV,
          result_backend = None, tasks = [(''task-with-params'', task_with_params)],
          configuration =
            \<lparr>max_delivery_attempts = 3, healthcheck_interval = 10000000,
             timeout_interval = 5000000, serialization_backends = example_backends\<rparr>,
          concurrency = 1, stop_event = False, active_tasks = []\<rparr>"
  by (simp add: AsyncWorker_init_def)

section \<open>The executor\<close>

lemma call_task_fn_active_tasks:
  "AsyncWorker_call_task_fn (w\<lparr>active_tasks := a\<rparr>) t = AsyncWorker_call_task_fn w t"
  by (simp add: AsyncWorker_call_task_fn_def cong: option.case_cong sum.case_cong)

lemma worker_step_raises:
  assumes "AsyncWorker_call_task_fn w (task bt) = Inl e"
    and "fst (broker_ack_context (broker w) bt (\<lambda>b. (Inl e, b)) (broker_state w)) = Inl e"
  shows "worker_step w bt =
     (Inl e, w\<lparr>active_tasks := AList.update (task_id (task bt)) bt (active_tasks w),
               broker_state := snd (broker_ack_context (broker w) bt (\<lambda>b. (Inl e, b)) (broker_state w))\<rparr>)"
  using assms
  by (cases "broker_ack_context (broker w) bt (\<lambda>b. (Inl e, b)) (broker_state w)")
     (simp add: worker_step_def call_task_fn_active_tasks)

lemma worker_append:
  "AsyncWorker_worker w (xs @ ys) =
     (case AsyncWorker_worker w xs of
        (Inl e, w') \<Rightarrow> (Inl e, w')
      | (Inr u, w') \<Rightarrow> AsyncWorker_worker w' ys)"
  by (induction xs arbitrary: w) (auto split: prod.splits sum.splits)

lemma failures_append: "failures (xs @ ys) = failures xs @ failures ys"
  by (induction xs rule: failures.induct) simp_all

lemma executors_append:
  "executors w (xs @ ys) =
     (case executors w xs of
        (outs1, w1) \<Rightarrow>
          (case executors w1 ys of
             (outs2, w2) \<Rightarrow> (outs1 @ outs2, w2)))"
  by (induction xs arbitrary: w) (auto split: prod.splits)

lemma run_raises_group:
  assumes "loop rounds w ch = (body, w0, ch1)"
    and "executors w0 before = (outs0, w1)"
    and "length before < nat (concurrency w)"
    and "fst (AsyncWorker_worker w1 recv) = Inl e"
  shows "\<exists>es. fst (AsyncWorker_run loop rounds (before @ recv # after) w ch)
           = Some (Inl (ExceptionGroup es)) \<and> e \<in> set es"
proof -
  from assms(3) have tk: "take (nat (concurrency w)) (before @ recv # after) =
      before @ [recv] @ take (nat (concurrency w) - Suc (length before)) after"
    by (simp add: take_Cons')
  obtain w2 where first: "AsyncWorker_worker w1 recv = (Inl e, w2)"
    using assms(4) by (cases "AsyncWorker_worker w1 recv") auto
  obtain outs w3 where rest:
    "executors w2 (take (nat (concurrency w) - Suc (length before)) after) = (outs, w3)"
    by (cases "executors w2 (take (nat (concurrency w) - Suc (length before)) after)")
  have ex: "executors w0 (take (nat (concurrency w)) (before @ recv # after)) =
      (outs0 @ Inl e # outs, w3)"
    by (simp only: tk) (simp add: executors_append assms(2) first rest)
  obtain x xs where fl: "failures ((outs0 @ Inl e # outs) @ [case body of Inl e \<Rightarrow> Inl e | Inr x \<Rightarrow> Inr ()])
      = x # xs"
    by (cases "failures outs0") (simp_all add: failures_append)
  have mem: "e \<in> set (failures ((outs0 @ Inl e # outs) @ [case body of Inl e \<Rightarrow> Inl e | Inr x \<Rightarrow> Inr ()]))"
    by (simp add: failures_append)
  show ?thesis
    using fl mem
    by (simp only: AsyncWorker_run_def assms(1) ex prod.case Let_def TaskGroup_aexit_def)
       (auto simp: failures_append)
qed

text \<open>
  Claim C3, amended. The executor does not contain the errors of a task. Let an
  executor have handled some tasks without an exception. If, for the next task, the
  lookup of the task name, the decoding of the arguments or the callable raises inside
  the ack scope, and the scope of the broker passes the exception on and leaves the
  broker as it is (as those of both brokers do), then \<^verbatim>\<open>_worker\<close> ends with this
  exception: whatever tasks follow on the channel, it handles none of them; the broker
  is as it was before the failing task, so that nothing is acknowledged, and the
  failing task is in \<^verbatim>\<open>active_tasks\<close>. If this executor is one of the executors of a
  worker, whatever the other executors receive, the exception ends \<^verbatim>\<open>run\<close> of this
  worker too: \<^verbatim>\<open>run\<close> raises an exception group that holds it.
\<close>

theorem worker_ends_at_first_failure:
  assumes "AsyncWorker_worker w1 handled = (Inr (), w')"
    and "AsyncWorker_call_task_fn w' (task bt) = Inl e"
    and "broker_ack_context (broker w') bt (\<lambda>b. (Inl e, b)) (broker_state w')
           = (Inl e, broker_state w')"
  shows "AsyncWorker_worker w1 (handled @ bt # recv) =
     (Inl e, w'\<lparr>active_tasks := AList.update (task_id (task bt)) bt (active_tasks w')\<rparr>) \<and>
   (\<forall>loop rounds w ch body w0 ch1 before outs0 after.
      loop rounds w ch = (body, w0, ch1) \<longrightarrow>
      executors w0 before = (outs0, w1) \<longrightarrow>
      length before < nat (concurrency w) \<longrightarrow>
      (\<exists>es. fst (AsyncWorker_run loop rounds (before @ (handled @ bt # recv) # after) w ch)
             = Some (Inl (ExceptionGroup es)) \<and> e \<in> set es))"
proof -
  have scope: "fst (broker_ack_context (broker w') bt (\<lambda>b. (Inl e, b)) (broker_state w')) = Inl e"
    by (simp add: assms(3))
  have fiber: "AsyncWorker_worker w1 (handled @ bt # recv) =
     (Inl e, w'\<lparr>active_tasks := AList.update (task_id (task bt)) bt (active_tasks w')\<rparr>)"
    using assms(1) worker_step_raises [OF assms(2) scope]
    by (simp add: worker_append assms(3))
  then have "fst (AsyncWorker_worker w1 (handled @ bt # recv)) = Inl e" by simp
  then have "\<forall>loop rounds w ch body w0 ch1 before outs0 after.
      loop rounds w ch = (body, w0, ch1) \<longrightarrow>
      executors w0 before = (outs0, w1) \<longrightarrow>
      length before < nat (concurrency w) \<longrightarrow>
      (\<exists>es. fst (AsyncWorker_run loop rounds (before @ (handled @ bt # recv) # after) w ch)
             = Some (Inl (ExceptionGroup es)) \<and> e \<in> set es)"
    using run_raises_group by blast
  with fiber show ?thesis by simp
qed


lemma example_step_succeeds:
  "worker_step example_worker (example_task ''t1'' ''task-with-params'' 0 4) =
     (Inr (), example_worker
        \<lparr>broker_state := example_redis\<lparr>pending := [(3, 40)], commands := [XACK 4]\<rparr>,
         result_backend := Some [(''t1'', IntV 8)]\<rparr>)"
  by (simp add: worker_step_def example_worker_def example_task_def example_record_def
      RedisBroker_def RedisBroker_ack_context_def AsyncWorker_call_task_fn_def
      task_with_params_def example_configuration_def example_backends_def byte_backend_def
      deserialize_task_def deserialize_arg_def xack_def example_redis_def)

lemma unknown_task_raises:
  "map_of (tasks w) (task_name t) = None \<Longrightarrow>
   AsyncWorker_call_task_fn w t = Inl (KeyError (task_name t))"
  by (simp add: AsyncWorker_call_task_fn_def)

lemma RedisBroker_scope_propagates:
  "broker w = RedisBroker \<Longrightarrow>
   fst (broker_ack_context (broker w) bt (\<lambda>b. (Inl e, b)) b') = Inl e"
  by (simp add: RedisBroker_def RedisBroker_ack_context_def)

lemma RedisBroker_scope_passes:
  "broker w = RedisBroker \<Longrightarrow>
   broker_ack_context (broker w) bt (\<lambda>b. (Inl e, b)) b' = (Inl e, b')"
  by (simp add: RedisBroker_def RedisBroker_ack_context_def)

lemma InMemoryBroker_scope_passes:
  "broker w = InMemoryBroker \<Longrightarrow>
   broker_ack_context (broker w) bt (\<lambda>b. (Inl e, b)) b' = (Inl e, b')"
  by (simp add: InMemoryBroker_def)

text \<open>
  The theorem at three tasks that the loop of \<^verbatim>\<open>aiotaskqueue\<close> has read and sent, of
  which the second names a task that is not registered, for a worker with one executor.
\<close>

theorem worker_ends_at_first_failure_witness:
  "AsyncWorker_worker example_worker
     [example_task ''t1'' ''task-with-params'' 0 4, example_task ''t0'' ''missing'' 0 3,
      example_task ''t2'' ''task-with-params'' 0 6]
   = (Inl (KeyError ''missing''),
      example_worker
        \<lparr>broker_state := example_redis\<lparr>pending := [(3, 40)], commands := [XACK 4]\<rparr>,
         result_backend := Some [(''t1'', IntV 8)],
         active_tasks := [(''t0'', example_task ''t0'' ''missing'' 0 3)]\<rparr>) \<and>
   (\<exists>es. fst (AsyncWorker_run aiotaskqueue_run_loop
              [\<lparr>completed = ReadOnly
                  [example_task ''t1'' ''task-with-params'' 0 4, example_task ''t0'' ''missing'' 0 3,
                   example_task ''t2'' ''task-with-params'' 0 6],
                reread = None, stop_later = False\<rparr>]
              [[example_task ''t1'' ''task-with-params'' 0 4, example_task ''t0'' ''missing'' 0 3,
                example_task ''t2'' ''task-with-params'' 0 6]]
              example_worker open_channel)
      = Some (Inl (ExceptionGroup es)) \<and> KeyError ''missing'' \<in> set es)"
proof -
  let ?w' = "example_worker
        \<lparr>broker_state := example_redis\<lparr>pending := [(3, 40)], commands := [XACK 4]\<rparr>,
         result_backend := Some [(''t1'', IntV 8)]\<rparr>"
  have first: "AsyncWorker_worker example_worker [example_task ''t1'' ''task-with-params'' 0 4] =
     (Inr (), ?w')"
    by (simp add: example_step_succeeds)
  have raises: "AsyncWorker_call_task_fn ?w'
      (task (example_task ''t0'' ''missing'' 0 3)) = Inl (KeyError ''missing'')"
    using unknown_task_raises [of ?w' "task (example_task ''t0'' ''missing'' 0 3)"]
    by (simp add: example_worker_def example_task_def example_record_def)
  have passes: "broker_ack_context (broker ?w')
      (example_task ''t0'' ''missing'' 0 3) (\<lambda>b. (Inl (KeyError ''missing''), b))
      (broker_state ?w') = (Inl (KeyError ''missing''), broker_state ?w')"
    by (rule RedisBroker_scope_passes) (simp add: example_worker_def)
  have loop: "aiotaskqueue_run_loop
              [\<lparr>completed = ReadOnly
                  [example_task ''t1'' ''task-with-params'' 0 4, example_task ''t0'' ''missing'' 0 3,
                   example_task ''t2'' ''task-with-params'' 0 6],
                reread = None, stop_later = False\<rparr>]
              example_worker open_channel
      = (Inr Waiting, example_worker,
         \<lparr>sent = [example_task ''t1'' ''task-with-params'' 0 4, example_task ''t0'' ''missing'' 0 3,
                  example_task ''t2'' ''task-with-params'' 0 6], closed = False\<rparr>)"
    by (simp add: example_worker_def example_task_def example_record_def example_configuration_def
        open_channel_def send_def)
  have conc: "length ([] :: RedisMeta BrokerTask list list) < nat (concurrency example_worker)"
    by (simp add: example_worker_def)
  have none: "executors example_worker [] = ([], example_worker)"
    by simp
  note main = worker_ends_at_first_failure [OF first raises passes,
        of "[example_task ''t2'' ''task-with-params'' 0 6]"]
  from main have "\<exists>es. fst (AsyncWorker_run aiotaskqueue_run_loop
              [\<lparr>completed = ReadOnly
                  [example_task ''t1'' ''task-with-params'' 0 4, example_task ''t0'' ''missing'' 0 3,
                   example_task ''t2'' ''task-with-params'' 0 6],
                reread = None, stop_later = False\<rparr>]
              ([] @ ([example_task ''t1'' ''task-with-params'' 0 4] @ example_task ''t0'' ''missing'' 0 3 #
                [example_task ''t2'' ''task-with-params'' 0 6]) # [])
              example_worker open_channel)
      = Some (Inl (ExceptionGroup es)) \<and> KeyError ''missing'' \<in> set es"
    using loop none conc by blast
  then have run: "\<exists>es. fst (AsyncWorker_run aiotaskqueue_run_loop
              [\<lparr>completed = ReadOnly
                  [example_task ''t1'' ''task-with-params'' 0 4, example_task ''t0'' ''missing'' 0 3,
                   example_task ''t2'' ''task-with-params'' 0 6],
                reread = None, stop_later = False\<rparr>]
              [[example_task ''t1'' ''task-with-params'' 0 4, example_task ''t0'' ''missing'' 0 3,
                example_task ''t2'' ''task-with-params'' 0 6]]
              example_worker open_channel)
      = Some (Inl (ExceptionGroup es)) \<and> KeyError ''missing'' \<in> set es"
    by simp
  from main have fiber: "AsyncWorker_worker example_worker
     ([example_task ''t1'' ''task-with-params'' 0 4] @ example_task ''t0'' ''missing'' 0 3 #
        [example_task ''t2'' ''task-with-params'' 0 6])
   = (Inl (KeyError ''missing''),
      ?w'\<lparr>active_tasks := AList.update (task_id (task (example_task ''t0'' ''missing'' 0 3)))
            (example_task ''t0'' ''missing'' 0 3) (active_tasks ?w')\<rparr>)"
    by blast
  have upd: "?w'\<lparr>active_tasks := AList.update (task_id (task (example_task ''t0'' ''missing'' 0 3)))
            (example_task ''t0'' ''missing'' 0 3) (active_tasks ?w')\<rparr>
     = example_worker
        \<lparr>broker_state := example_redis\<lparr>pending := [(3, 40)], commands := [XACK 4]\<rparr>,
         result_backend := Some [(''t1'', IntV 8)],
         active_tasks := [(''t0'', example_task ''t0'' ''missing'' 0 3)]\<rparr>"
    by (simp add: example_worker_def example_task_def example_record_def)
  from fiber run show ?thesis
    by (simp only: upd append_Cons append_Nil simp_thms)
qed

text \<open>
  Claim C3 as stated says that the executor goes on to the tasks after a failing one
  and that \<^verbatim>\<open>run\<close> does not end. Here the first task names an unregistered task and
  the second one is a task that the same executor handles when it comes alone:
  \<^verbatim>\<open>_worker\<close> ends with the \<^verbatim>\<open>KeyError\<close> of the first, the result backend has
  received nothing, and \<^verbatim>\<open>run\<close> raises the group of this \<^verbatim>\<open>KeyError\<close>.
\<close>

theorem worker_stops_counterexample:
  "fst (AsyncWorker_worker example_worker
          [example_task ''t0'' ''missing'' 0 3, example_task ''t1'' ''task-with-params'' 0 4])
     = Inl (KeyError ''missing'') \<and>
   result_backend (snd (AsyncWorker_worker example_worker
          [example_task ''t0'' ''missing'' 0 3, example_task ''t1'' ''task-with-params'' 0 4]))
     = Some [] \<and>
   result_backend (snd (AsyncWorker_worker example_worker
          [example_task ''t1'' ''task-with-params'' 0 4]))
     = Some [(''t1'', IntV 8)] \<and>
   fst (AsyncWorker_run aiotaskqueue_run_loop
          [\<lparr>completed = ReadOnly
              [example_task ''t0'' ''missing'' 0 3, example_task ''t1'' ''task-with-params'' 0 4],
            reread = None, stop_later = False\<rparr>]
          [[example_task ''t0'' ''missing'' 0 3, example_task ''t1'' ''task-with-params'' 0 4]]
          example_worker open_channel)
     = Some (Inl (ExceptionGroup [KeyError ''missing'']))"
proof -
  have loop: "aiotaskqueue_run_loop
          [\<lparr>completed = ReadOnly
              [example_task ''t0'' ''missing'' 0 3, example_task ''t1'' ''task-with-params'' 0 4],
            reread = None, stop_later = False\<rparr>]
          example_worker open_channel
      = (Inr Waiting, example_worker,
         \<lparr>sent = [example_task ''t0'' ''missing'' 0 3, example_task ''t1'' ''task-with-params'' 0 4],
          closed = False\<rparr>)"
    by (simp add: example_worker_def example_task_def example_record_def example_configuration_def
        open_channel_def send_def)
  have step: "worker_step example_worker (example_task ''t0'' ''missing'' 0 3) =
    (Inl (KeyError ''missing''),
     example_worker\<lparr>active_tasks := [(''t0'', example_task ''t0'' ''missing'' 0 3)]\<rparr>)"
    by (simp add: worker_step_def example_worker_def example_task_def example_record_def
        RedisBroker_def RedisBroker_ack_context_def AsyncWorker_call_task_fn_def)
  have conc: "nat (concurrency example_worker) = Suc 0"
    by (simp add: example_worker_def)
  have run: "fst (AsyncWorker_run aiotaskqueue_run_loop
          [\<lparr>completed = ReadOnly
              [example_task ''t0'' ''missing'' 0 3, example_task ''t1'' ''task-with-params'' 0 4],
            reread = None, stop_later = False\<rparr>]
          [[example_task ''t0'' ''missing'' 0 3, example_task ''t1'' ''task-with-params'' 0 4]]
          example_worker open_channel)
     = Some (Inl (ExceptionGroup [KeyError ''missing'']))"
    by (simp only: AsyncWorker_run_def loop) (simp add: conc step TaskGroup_aexit_def)
  from step run show ?thesis
    by (simp add: example_step_succeeds) (simp add: example_worker_def)
qed

section \<open>Active tasks and the heartbeat\<close>

lemma healthcheck_resets_idle:
  "rt \<in> set bts \<Longrightarrow>
   (meta_id (meta rt), idle) \<in> set (pending (RedisBroker_tasks_healthcheck bts r)) \<Longrightarrow>
   idle = 0"
  by (auto simp: RedisBroker_tasks_healthcheck_def xclaim_def split: if_splits)

lemma heartbeat_fiber_state:
  "active_tasks w \<noteq> [] \<Longrightarrow>
   snd (AsyncWorker_claim_pending_tasks rounds w) =
     w\<lparr>broker_state :=
         ((broker_tasks_healthcheck (broker w) (map snd (active_tasks w))) ^^ heartbeat_rounds rounds)
           (broker_state w)\<rparr>"
proof (induction rounds arbitrary: w)
  case Nil
  then show ?case by simp
next
  case (Cons stop rounds)
  let ?w = "w\<lparr>broker_state :=
      broker_tasks_healthcheck (broker w) (map snd (active_tasks w)) (broker_state w)\<rparr>"
  have step: "claim_pending_tasks_step w = ?w"
    using Cons.prems by (simp add: claim_pending_tasks_step_def)
  have "active_tasks ?w \<noteq> []" using Cons.prems by simp
  from Cons.IH [OF this] show ?case
    by (simp add: step Let_def funpow_swap1)
qed

lemma worker_step_active_tasks:
  "worker_step w0 bt = (out, w') \<Longrightarrow>
   active_tasks w' =
     (case out of
        Inl e \<Rightarrow> AList.update (task_id (task bt)) bt (active_tasks w0)
      | Inr u \<Rightarrow> AList.delete (task_id (task bt)) (active_tasks w0))"
  by (auto simp: worker_step_def Let_def delete_update_same split: prod.splits sum.splits)


lemma heartbeat_fiber_idle:
  "active_tasks w = [] \<Longrightarrow> snd (AsyncWorker_claim_pending_tasks rounds w) = w"
  by (induction rounds arbitrary: w) (simp_all add: claim_pending_tasks_step_def Let_def)

lemma heartbeat_fiber_returns:
  "fst (AsyncWorker_claim_pending_tasks rounds w) = list_ex (\<lambda>stop. stop) rounds"
  by (induction rounds arbitrary: w) (auto simp: Let_def split: if_splits)

lemma healthcheck_state:
  "pending (RedisBroker_tasks_healthcheck bts r) =
     map (\<lambda>(j, idle). if j \<in> set (map (\<lambda>bt. meta_id (meta bt)) bts) then (j, 0) else (j, idle))
       (pending r) \<and>
   commands (RedisBroker_tasks_healthcheck bts r) =
     commands r @ [XCLAIM (map (\<lambda>bt. meta_id (meta bt)) bts)]"
  by (simp add: RedisBroker_tasks_healthcheck_def xclaim_def)

lemma heartbeat_keeps_active_tasks:
  "active_tasks (snd (AsyncWorker_claim_pending_tasks rounds w)) = active_tasks w"
proof (induction rounds arbitrary: w)
  case Nil
  then show ?case by simp
next
  case (Cons stop rounds)
  have "active_tasks (claim_pending_tasks_step w) = active_tasks w"
    by (simp add: claim_pending_tasks_step_def)
  with Cons.IH [of "claim_pending_tasks_step w"] show ?case
    by (simp add: Let_def)
qed

text \<open>
  Claim C10. The step of an executor leaves the entry of its task in \<^verbatim>\<open>active_tasks\<close>
  when it raises, whatever raises, and has removed it when it ends normally. If the
  lookup of the task, the decoding of its arguments or the callable raises inside the
  ack scope (and the scope lets the exception through), the step raises, and from then
  on, as long as the heartbeat runs: it never changes \<^verbatim>\<open>active_tasks\<close>, and in each of
  its rounds it calls \<^verbatim>\<open>tasks_healthcheck\<close> with the tasks of \<^verbatim>\<open>active_tasks\<close>, among
  them the failed one, and changes nothing else (with no active task it calls nothing);
  it returns when \<^verbatim>\<open>stop\<close> is set. On the Redis broker such a call is one \<^verbatim>\<open>XCLAIM\<close> of
  the entries of the listed tasks, which sets the idle time of the pending entry of each
  task in the list to zero and leaves the other pending entries as they are.
\<close>

theorem failed_task_stays_active:
  assumes "AsyncWorker_call_task_fn w (task bt) = Inl e"
    and "fst (broker_ack_context (broker w) bt (\<lambda>b. (Inl e, b)) (broker_state w)) = Inl e"
  shows "fst (worker_step w bt) = Inl e \<and>
    active_tasks (snd (worker_step w bt)) = AList.update (task_id (task bt)) bt (active_tasks w) \<and>
    map_of (active_tasks (snd (worker_step w bt))) (task_id (task bt)) = Some bt \<and>
    bt \<in> set (map snd (active_tasks (snd (worker_step w bt)))) \<and>
    claim_pending_tasks_step (snd (worker_step w bt)) =
      (snd (worker_step w bt))\<lparr>broker_state :=
         broker_tasks_healthcheck (broker w) (map snd (active_tasks (snd (worker_step w bt))))
           (broker_state (snd (worker_step w bt)))\<rparr> \<and>
    (\<forall>rounds. snd (AsyncWorker_claim_pending_tasks rounds (snd (worker_step w bt))) =
      (snd (worker_step w bt))\<lparr>broker_state :=
         ((broker_tasks_healthcheck (broker w) (map snd (active_tasks (snd (worker_step w bt)))))
            ^^ heartbeat_rounds rounds) (broker_state (snd (worker_step w bt)))\<rparr>) \<and>
    (\<forall>rounds w0. active_tasks (snd (AsyncWorker_claim_pending_tasks rounds w0)) = active_tasks w0) \<and>
    (\<forall>rounds w0. snd (AsyncWorker_claim_pending_tasks rounds w0) =
       (if active_tasks w0 = [] then w0
        else w0\<lparr>broker_state :=
               ((broker_tasks_healthcheck (broker w0) (map snd (active_tasks w0)))
                  ^^ heartbeat_rounds rounds) (broker_state w0)\<rparr>)) \<and>
    (\<forall>rounds w0. fst (AsyncWorker_claim_pending_tasks rounds w0) = list_ex (\<lambda>stop. stop) rounds) \<and>
    (\<forall>w0 out w'. worker_step w0 bt = (out, w') \<longrightarrow>
       active_tasks w' =
         (case out of
            Inl e' \<Rightarrow> AList.update (task_id (task bt)) bt (active_tasks w0)
          | Inr u \<Rightarrow> AList.delete (task_id (task bt)) (active_tasks w0))) \<and>
    (\<forall>w0 w'. worker_step w0 bt = (Inr (), w') \<longrightarrow>
       map_of (active_tasks w') (task_id (task bt)) = None) \<and>
    (\<forall>rt bts r idle. rt \<in> set bts \<longrightarrow>
       (meta_id (meta rt), idle) \<in> set (pending (RedisBroker_tasks_healthcheck bts r)) \<longrightarrow>
       idle = 0) \<and>
    (\<forall>bts r.
       pending (RedisBroker_tasks_healthcheck bts r) =
         map (\<lambda>(j, idle). if j \<in> set (map (\<lambda>bt. meta_id (meta bt)) bts) then (j, 0) else (j, idle))
           (pending r) \<and>
       commands (RedisBroker_tasks_healthcheck bts r) =
         commands r @ [XCLAIM (map (\<lambda>bt. meta_id (meta bt)) bts)])"
proof -
  let ?w' = "snd (worker_step w bt)"
  have step: "worker_step w bt =
     (Inl e, w\<lparr>active_tasks := AList.update (task_id (task bt)) bt (active_tasks w),
               broker_state := snd (broker_ack_context (broker w) bt (\<lambda>b. (Inl e, b)) (broker_state w))\<rparr>)"
    by (rule worker_step_raises [OF assms])
  have act: "active_tasks ?w' = AList.update (task_id (task bt)) bt (active_tasks w)"
    by (simp add: step)
  have br: "broker ?w' = broker w"
    by (simp add: step)
  have look: "map_of (active_tasks ?w') (task_id (task bt)) = Some bt"
    by (simp add: act update_conv')
  then have mem: "bt \<in> set (map snd (active_tasks ?w'))"
    by (force dest: map_of_SomeD)
  then have ne: "active_tasks ?w' \<noteq> []" by auto
  have one: "claim_pending_tasks_step ?w' =
      ?w'\<lparr>broker_state :=
         broker_tasks_healthcheck (broker w) (map snd (active_tasks ?w')) (broker_state ?w')\<rparr>"
    using ne by (simp add: claim_pending_tasks_step_def br)
  have fiber: "\<forall>rounds. snd (AsyncWorker_claim_pending_tasks rounds ?w') =
      ?w'\<lparr>broker_state :=
         ((broker_tasks_healthcheck (broker w) (map snd (active_tasks ?w')))
            ^^ heartbeat_rounds rounds) (broker_state ?w')\<rparr>"
    using heartbeat_fiber_state [OF ne] by (simp add: br)
  have keeps: "\<forall>rounds w0. active_tasks (snd (AsyncWorker_claim_pending_tasks rounds w0)) = active_tasks w0"
    by (simp add: heartbeat_keeps_active_tasks)
  have pinned: "\<forall>w0 out w'. worker_step w0 bt = (out, w') \<longrightarrow>
       active_tasks w' =
         (case out of
            Inl e' \<Rightarrow> AList.update (task_id (task bt)) bt (active_tasks w0)
          | Inr u \<Rightarrow> AList.delete (task_id (task bt)) (active_tasks w0))"
    by (blast dest: worker_step_active_tasks)
  have normal: "\<forall>w0 w'. worker_step w0 bt = (Inr (), w') \<longrightarrow>
       map_of (active_tasks w') (task_id (task bt)) = None"
    by (auto dest!: worker_step_active_tasks simp: delete_conv')
  have refresh: "\<forall>rt bts r idle. rt \<in> set bts \<longrightarrow>
       (meta_id (meta rt), idle) \<in> set (pending (RedisBroker_tasks_healthcheck bts r)) \<longrightarrow>
       idle = 0"
    by (blast intro: healthcheck_resets_idle)
  have every: "\<forall>rounds w0. snd (AsyncWorker_claim_pending_tasks rounds w0) =
       (if active_tasks w0 = [] then w0
        else w0\<lparr>broker_state :=
               ((broker_tasks_healthcheck (broker w0) (map snd (active_tasks w0)))
                  ^^ heartbeat_rounds rounds) (broker_state w0)\<rparr>)"
    by (simp add: heartbeat_fiber_idle heartbeat_fiber_state)
  have returns: "\<forall>rounds w0. fst (AsyncWorker_claim_pending_tasks rounds w0) = list_ex (\<lambda>stop. stop) rounds"
    by (simp add: heartbeat_fiber_returns)
  have redis: "\<forall>bts r.
       pending (RedisBroker_tasks_healthcheck bts r) =
         map (\<lambda>(j, idle). if j \<in> set (map (\<lambda>bt. meta_id (meta bt)) bts) then (j, 0) else (j, idle))
           (pending r) \<and>
       commands (RedisBroker_tasks_healthcheck bts r) =
         commands r @ [XCLAIM (map (\<lambda>bt. meta_id (meta bt)) bts)]"
    using healthcheck_state by blast
  have first: "fst (worker_step w bt) = Inl e" by (simp add: step)
  from first act look mem one fiber keeps every returns pinned normal refresh redis show ?thesis
    by (intro conjI)
qed

text \<open>
  The theorem at a task whose name is not registered, on the Redis broker, with two
  rounds of the heartbeat after the failure: both claim entry 3, whose idle time goes
  from 40 to 0. The last conjunct is a step that ends normally.
\<close>

theorem failed_task_stays_active_witness:
  "fst (worker_step example_worker (example_task ''t0'' ''missing'' 0 3)) = Inl (KeyError ''missing'') \<and>
   active_tasks (snd (worker_step example_worker (example_task ''t0'' ''missing'' 0 3)))
     = [(''t0'', example_task ''t0'' ''missing'' 0 3)] \<and>
   snd (AsyncWorker_claim_pending_tasks [False, True]
       (snd (worker_step example_worker (example_task ''t0'' ''missing'' 0 3))))
     = example_worker
         \<lparr>broker_state := example_redis\<lparr>pending := [(3, 0), (4, 30)],
                                          commands := [XCLAIM [3], XCLAIM [3]]\<rparr>,
          active_tasks := [(''t0'', example_task ''t0'' ''missing'' 0 3)]\<rparr> \<and>
   active_tasks (snd (worker_step example_worker (example_task ''t1'' ''task-with-params'' 0 4))) = []"
proof -
  have raises: "AsyncWorker_call_task_fn example_worker (task (example_task ''t0'' ''missing'' 0 3))
      = Inl (KeyError ''missing'')"
    using unknown_task_raises [of example_worker "task (example_task ''t0'' ''missing'' 0 3)"]
    by (simp add: example_worker_def example_task_def example_record_def)
  have propagates: "fst (broker_ack_context (broker example_worker)
      (example_task ''t0'' ''missing'' 0 3) (\<lambda>b. (Inl (KeyError ''missing''), b))
      (broker_state example_worker)) = Inl (KeyError ''missing'')"
    by (rule RedisBroker_scope_propagates) (simp add: example_worker_def)
  have step: "worker_step example_worker (example_task ''t0'' ''missing'' 0 3) =
    (Inl (KeyError ''missing''),
     example_worker\<lparr>active_tasks := [(''t0'', example_task ''t0'' ''missing'' 0 3)]\<rparr>)"
    by (simp add: worker_step_def example_worker_def example_task_def example_record_def
        RedisBroker_def RedisBroker_ack_context_def AsyncWorker_call_task_fn_def)
  show ?thesis
    using failed_task_stays_active [OF raises propagates]
    by (simp add: step example_step_succeeds)
       (simp add: example_worker_def example_task_def example_redis_def RedisBroker_def
          RedisBroker_tasks_healthcheck_def xclaim_def claim_pending_tasks_step_def
          example_record_def Let_def)
qed

section \<open>The dispatch loop\<close>

lemma aiotaskqueue_forward_sends_all:
  "\<not> closed ch \<Longrightarrow>
   fst (aiotaskqueue_forward w batch ch) = Inr () \<and>
   snd (snd (aiotaskqueue_forward w batch ch)) = ch\<lparr>sent := sent ch @ batch\<rparr>"
  by (induction batch arbitrary: w ch) (simp_all add: send_def Let_def)

text \<open>
  Claim C1, at an input on which the code does not do what the claim says. The broker
  returns one task whose \<^verbatim>\<open>requeue_count\<close> is 3, with \<^verbatim>\<open>max_delivery_attempts\<close> 3. The
  loop of \<^verbatim>\<open>aiotaskqueue/worker.py\<close> acknowledges the task and then sends the same task
  onto the channel of the executors.
\<close>

theorem poison_pill_is_acked_and_sent:
  "aiotaskqueue_run_loop
     [\<lparr>completed = ReadOnly [example_task ''t1'' ''task-with-params'' 3 4],
       reread = None, stop_later = True\<rparr>]
     example_worker open_channel
   = (Inr Broke,
      example_worker
        \<lparr>broker_state := example_redis\<lparr>pending := [(3, 40)], commands := [XACK 4]\<rparr>,
         stop_event := True\<rparr>,
      \<lparr>sent = [example_task ''t1'' ''task-with-params'' 3 4], closed = False\<rparr>)"
  by (simp add: example_worker_def example_task_def example_record_def example_configuration_def
      open_channel_def send_def RedisBroker_def xack_def example_redis_def)

text \<open>
  Claim C4, at inputs on which the loop of \<^verbatim>\<open>asyncqueue/worker.py\<close> does not do what
  the claim says. In the first, the raced read has returned one task when the wait for
  \<^verbatim>\<open>ALL_COMPLETED\<close> returns, and one more read returns the empty batch: the loop ends
  and the task of the raced read has not been sent. In the second only the stop event
  is set: the wait does not return, so the loop does not break.
\<close>

theorem raced_batch_is_dropped:
  "asyncqueue_run_loop
     [\<lparr>completed = Both [example_task ''t1'' ''task-with-params'' 0 4],
       reread = Some [], stop_later = False\<rparr>]
     example_worker open_channel
   = (Inr Broke, example_worker\<lparr>stop_event := True\<rparr>, \<lparr>sent = [], closed = True\<rparr>) \<and>
   asyncqueue_run_loop
     [\<lparr>completed = StopOnly, reread = None, stop_later = False\<rparr>]
     example_worker open_channel
   = (Inr Waiting, example_worker, open_channel)"
  by (simp add: example_worker_def open_channel_def)

text \<open>
  The loop of \<^verbatim>\<open>aiotaskqueue/worker.py\<close>, for comparison: when the read is done as the
  wait for \<^verbatim>\<open>FIRST_COMPLETED\<close> returns, the batch of this read is what has been sent.
\<close>

lemma aiotaskqueue_forwards_raced_batch:
  "\<not> closed ch \<Longrightarrow>
   snd (snd (aiotaskqueue_run_loop
     [\<lparr>completed = ReadOnly batch, reread = x, stop_later = True\<rparr>] w ch))
      = ch\<lparr>sent := sent ch @ batch\<rparr>"
  using aiotaskqueue_forward_sends_all [of ch "w\<lparr>stop_event := stop_event w\<rparr>" batch]
  by (auto simp: Let_def split: prod.splits sum.splits)

end
